theory Spec2Isabelle
  imports Complex_Main
begin

section \<open>Python strings\<close>

text \<open>
  A Python \<open>str\<close> is a sequence of Unicode code points; a code point is modelled as a
  natural number and a string as a list of them, so that \<open>len\<close> is \<open>length\<close> and
  indexing is by code point, as in the source.
\<close>

type_synonym uchar = nat
type_synonym ustring = "nat list"

definition ascii :: "string \<Rightarrow> ustring" where
  "ascii s = map of_char s"

text \<open>The code points for which \<open>str.isspace\<close> holds; \<open>str.strip()\<close> removes exactly these.\<close>

definition isspace :: "uchar \<Rightarrow> bool" where
  "isspace c \<longleftrightarrow>
     (9 \<le> c \<and> c \<le> 13) \<or> (28 \<le> c \<and> c \<le> 32) \<or> c = 133 \<or> c = 160 \<or> c = 5760 \<or>
     (8192 \<le> c \<and> c \<le> 8202) \<or> c = 8232 \<or> c = 8233 \<or> c = 8239 \<or> c = 8287 \<or> c = 12288"

definition lstrip :: "ustring \<Rightarrow> ustring" where
  "lstrip s = dropWhile isspace s"

definition rstrip :: "ustring \<Rightarrow> ustring" where
  "rstrip s = rev (dropWhile isspace (rev s))"

definition strip :: "ustring \<Rightarrow> ustring" where
  "strip s = rstrip (lstrip s)"

definition newline :: uchar where
  "newline = 10"

definition endswith_newline :: "ustring \<Rightarrow> bool" where
  "endswith_newline s \<longleftrightarrow> s \<noteq> [] \<and> last s = newline"

text \<open>\<open>s.replace(old, new)\<close> for a one-character \<open>old\<close>.\<close>

definition replace_char :: "uchar \<Rightarrow> ustring \<Rightarrow> ustring \<Rightarrow> ustring" where
  "replace_char old new s = concat (map (\<lambda>c. if c = old then new else [c]) s)"

definition dquote :: uchar where
  "dquote = 34"

definition apostrophe :: uchar where
  "apostrophe = 39"

text \<open>
  Python's case tables are part of the interpreter, not of the repository: they are
  taken as parameters. \<open>islower\<close> and \<open>isupper\<close> are the tests on one-character
  strings, \<open>upper\<close> is \<open>str.upper\<close> on a one-character string (which may give several
  code points) and \<open>lower\<close> is \<open>str.lower\<close> on a whole string.
\<close>

record unicode_tables =
  islower :: "uchar \<Rightarrow> bool"
  isupper :: "uchar \<Rightarrow> bool"
  upper :: "uchar \<Rightarrow> ustring"
  lower :: "ustring \<Rightarrow> ustring"

text \<open>
  The facts about the case tables that the capitalisation repair relies on: a line feed
  is not a lowercase letter, upper-casing a letter gives at least one code point, and
  upper-casing is stable on the first code point it produces.
\<close>

definition case_tables_ok :: "unicode_tables \<Rightarrow> bool" where
  "case_tables_ok U \<longleftrightarrow>
     \<not> islower U newline \<and>
     (\<forall>c. islower U c \<longrightarrow> upper U c \<noteq> [] \<and>
        (islower U (hd (upper U c)) \<longrightarrow> upper U (hd (upper U c)) @ tl (upper U c) = upper U c))"

text \<open>A small instance of the tables: Basic Latin and the Cyrillic letters U+0410..U+044F.\<close>

definition small_tables :: unicode_tables where
  "small_tables = \<lparr>
     islower = (\<lambda>c. (97 \<le> c \<and> c \<le> 122) \<or> (1072 \<le> c \<and> c \<le> 1103)),
     isupper = (\<lambda>c. (65 \<le> c \<and> c \<le> 90) \<or> (1040 \<le> c \<and> c \<le> 1071)),
     upper = (\<lambda>c. if (97 \<le> c \<and> c \<le> 122) \<or> (1072 \<le> c \<and> c \<le> 1103) then [c - 32] else [c]),
     lower = map (\<lambda>c. if (65 \<le> c \<and> c \<le> 90) \<or> (1040 \<le> c \<and> c \<le> 1071) then c + 32 else c) \<rparr>"

section \<open>The translation backend\<close>

text \<open>
  A backend call (\<open>translator.translate\<close>) either returns a text or raises. The service is
  outside the repository; it is an oracle that answers the \<open>n\<close>-th invocation of a run for
  a given text, so that it may fail once and succeed later.
\<close>

datatype backend_error = Unavailable | RateLimited | Malformed | Timeout

type_synonym backend = "nat \<Rightarrow> ustring \<Rightarrow> backend_error + ustring"

section \<open>Legacy/high\_quality\_translate.py\<close>

definition SERBIAN_CYRILLIC_TO_LATIN :: "(uchar \<times> ustring) list" where
  "SERBIAN_CYRILLIC_TO_LATIN = [
    (1040, [65]), (1041, [66]), (1042, [86]), (1043, [71]),
    (1044, [68]), (1026, [272]), (1045, [69]), (1046, [381]),
    (1047, [90]), (1048, [73]), (1032, [74]), (1050, [75]),
    (1051, [76]), (1033, [76, 106]), (1052, [77]), (1053, [78]),
    (1034, [78, 106]), (1054, [79]), (1055, [80]), (1056, [82]),
    (1057, [83]), (1058, [84]), (1035, [262]), (1059, [85]),
    (1060, [70]), (1061, [72]), (1062, [67]), (1063, [268]),
    (1039, [68, 382]), (1064, [352]), (1072, [97]), (1073, [98]),
    (1074, [118]), (1075, [103]), (1076, [100]), (1106, [273]),
    (1077, [101]), (1078, [382]), (1079, [122]), (1080, [105]),
    (1112, [106]), (1082, [107]), (1083, [108]), (1113, [108, 106]),
    (1084, [109]), (1085, [110]), (1114, [110, 106]), (1086, [111]),
    (1087, [112]), (1088, [114]), (1089, [115]), (1090, [116]),
    (1115, [263]), (1091, [117]), (1092, [102]), (1093, [104]),
    (1094, [99]), (1095, [269]), (1119, [100, 382]), (1096, [353])]"

text \<open>\<open>SERBIAN_CYRILLIC_TO_LATIN.get(char, char)\<close>\<close>

definition table_get :: "uchar \<Rightarrow> ustring" where
  "table_get c = (case map_of SERBIAN_CYRILLIC_TO_LATIN c of None \<Rightarrow> [c] | Some s \<Rightarrow> s)"

text \<open>The loop \<open>for char in text: result += ...\<close>\<close>

fun convert_loop :: "ustring \<Rightarrow> ustring \<Rightarrow> ustring" where
  "convert_loop result [] = result"
| "convert_loop result (c # cs) = convert_loop (result @ table_get c) cs"

definition latin :: ustring where
  "latin = ascii ''latin''"


definition convert_script :: "ustring \<Rightarrow> ustring \<Rightarrow> ustring" where
  "convert_script target_script text =
     (if target_script = latin then convert_loop [] text else text)"

text \<open>\<open>post_process_translation(translated, original)\<close>\<close>

definition post_process_translation :: "ustring \<Rightarrow> ustring \<Rightarrow> ustring" where
  "post_process_translation translated original =
     (let t1 = (if endswith_newline original then rstrip translated @ [newline] else translated);
          t2 = (if dquote \<in> set original \<and> dquote \<notin> set t1
                then replace_char dquote [dquote] t1 else t1);
          t3 = (if apostrophe \<in> set original \<and> apostrophe \<notin> set t2
                then replace_char apostrophe [apostrophe] t2 else t2)
      in t3)"

text \<open>
  The \<open>FB2Translator\<close> object; \<open>fb2_cache\<close> is its \<open>translation_cache\<close>.
  \<open>fb2_calls\<close> is not a field of the source: it counts the backend invocations made so
  far and indexes the oracle.
\<close>

record fb2_translator =
  target_script :: ustring
  fb2_cache :: "(ustring \<times> ustring) \<rightharpoonup> ustring"
  fb2_calls :: nat

text \<open>
  \<open>translate_text(text, context)\<close>; \<open>avail\<close> is the module flag \<open>translator_available\<close>.
  Any exception of the backend call is caught and the source text is returned.
\<close>

definition translate_text ::
  "bool \<Rightarrow> backend \<Rightarrow> ustring \<Rightarrow> ustring \<Rightarrow> fb2_translator \<Rightarrow> ustring \<times> fb2_translator" where
  "translate_text avail B text context tr =
     (if text = [] \<or> strip text = [] then (text, tr)
      else if \<not> avail then (text, tr)
      else (case fb2_cache tr (text, context) of
              Some v \<Rightarrow> (v, tr)
            | None \<Rightarrow>
                (case B (fb2_calls tr) text of
                   Inl e \<Rightarrow> (text, tr\<lparr>fb2_calls := Suc (fb2_calls tr)\<rparr>)
                 | Inr res \<Rightarrow>
                     (let translated = post_process_translation res text
                      in (translated,
                          tr\<lparr>fb2_cache := (fb2_cache tr)((text, context) \<mapsto> translated),
                             fb2_calls := Suc (fb2_calls tr)\<rparr>)))))"

section \<open>The document tree\<close>

text \<open>
  An \<open>xml.etree.ElementTree.Element\<close>: tag, attributes in order, the two text slots and
  the children. Each element owns its children, so the tree is a value.
\<close>

datatype element =
  Element (tag: ustring) (attrib: "(ustring \<times> ustring) list")
          (own_text: "ustring option") (tail: "ustring option") (children: "element list")

text \<open>What is left of a tree when both text slots of every node are erased.\<close>

fun skeleton :: "element \<Rightarrow> element" where
  "skeleton (Element g a x t cs) = Element g a None None (map skeleton cs)"


text \<open>\<open>element.tag.split('}')[-1]\<close>: what follows the last closing brace.\<close>

definition after_last :: "uchar \<Rightarrow> ustring \<Rightarrow> ustring" where
  "after_last sep s = rev (takeWhile (\<lambda>c. c \<noteq> sep) (rev s))"

text \<open>
  One text slot of \<open>FB2Translator.process_element\<close>: an empty or missing slot stays
  unset in the new element, a blank one is copied, any other is translated and then
  transliterated.
\<close>

definition process_element_slot ::
  "bool \<Rightarrow> backend \<Rightarrow> ustring option \<Rightarrow> ustring \<Rightarrow> fb2_translator
     \<Rightarrow> ustring option \<times> fb2_translator" where
  "process_element_slot avail B slot current_context tr =
     (case slot of
        None \<Rightarrow> (None, tr)
      | Some s \<Rightarrow>
          if s = [] then (None, tr)
          else if length (strip s) > 0 then
            (let (translated, tr') = translate_text avail B s current_context tr
             in (Some (convert_script (target_script tr') translated), tr'))
          else (Some s, tr))"

text \<open>
  \<open>process_element(element, parent_context)\<close> builds a new element with the same tag and
  attributes, fills its text, appends the processed children in order and fills its tail.
\<close>

fun process_element ::
  "bool \<Rightarrow> backend \<Rightarrow> element \<Rightarrow> ustring \<Rightarrow> fb2_translator \<Rightarrow> element \<times> fb2_translator"
and process_element_children ::
  "bool \<Rightarrow> backend \<Rightarrow> element list \<Rightarrow> ustring \<Rightarrow> fb2_translator
     \<Rightarrow> element list \<times> fb2_translator" where
  "process_element avail B (Element g a x t cs) parent_context tr =
     (let element_type = after_last 125 g;
          current_context = parent_context @ ascii ''/'' @ element_type;
          (x1, tr1) = process_element_slot avail B x current_context tr;
          (cs1, tr2) = process_element_children avail B cs current_context tr1;
          (t1, tr3) = process_element_slot avail B t current_context tr2
      in (Element g a x1 t1 cs1, tr3))"
| "process_element_children avail B [] current_context tr = ([], tr)"
| "process_element_children avail B (c # cs) current_context tr =
     (let (c1, tr1) = process_element avail B c current_context tr;
          (cs1, tr2) = process_element_children avail B cs current_context tr1
      in (c1 # cs1, tr2))"

section \<open>Legacy/high\_quality\_fb2\_translator.py\<close>

text \<open>
  The \<open>AdvancedFB2Translator\<close> object. \<open>translator_present\<close> says that
  \<open>self.translator\<close> is not \<open>None\<close>; \<open>error_log\<close> is \<open>self.errors\<close> (the first 30
  code points of the text and the exception); the four counters are the entries of
  \<open>self.translation_stats\<close>. Two fields are not in the source: \<open>calls\<close> counts the
  backend invocations made so far and indexes the oracle, and \<open>visited\<close> lists the
  (text, context) pairs the driver has handed to \<open>translate_with_context\<close>.
\<close>

record advanced_translator =
  translate_enabled :: bool
  translator_present :: bool
  translation_cache :: "(ustring \<times> ustring) \<rightharpoonup> ustring"
  reference_translations :: "ustring \<rightharpoonup> ustring"
  error_log :: "(ustring \<times> backend_error) list"
  stats_total :: nat
  stats_translated :: nat
  stats_errors :: nat
  stats_cached :: nat
  calls :: nat
  visited :: "(ustring \<times> ustring) list"

text \<open>\<open>enhance_translation(text, translated, context)\<close>\<close>

definition enhance_translation ::
  "unicode_tables \<Rightarrow> ustring \<Rightarrow> ustring \<Rightarrow> ustring \<Rightarrow> ustring" where
  "enhance_translation U text translated context =
     (let e0 = translated;
          e1 = (if dquote \<in> set text \<and> dquote \<notin> set e0
                then replace_char dquote [dquote] (replace_char dquote [dquote] e0) else e0);
          e2 = (if apostrophe \<in> set text \<and> apostrophe \<notin> set e1
                then replace_char apostrophe [apostrophe] e1 else e1);
          e3 = (if endswith_newline text \<and> \<not> endswith_newline e2 then e2 @ [newline] else e2);
          e4 = (if e3 \<noteq> [] \<and> islower U (hd e3) \<and> text \<noteq> [] \<and> isupper U (hd text)
                then upper U (hd e3) @ tl e3 else e3)
      in e4)"

text \<open>
  The loop \<open>for attempt in range(retries)\<close> of \<open>translate_with_context\<close>. A call that
  returns is enhanced, cached, counted and returned; a call that raises (whatever it
  raises) is logged and counted on the last attempt, and followed by the next attempt
  otherwise. When the range is empty the function falls through to \<open>return None\<close>.
\<close>

function retry_loop ::
  "unicode_tables \<Rightarrow> backend \<Rightarrow> ustring \<Rightarrow> ustring \<Rightarrow> nat \<Rightarrow> nat \<Rightarrow> advanced_translator
     \<Rightarrow> ustring option \<times> advanced_translator" where
  "retry_loop U B text context retries attempt tr =
     (if attempt < retries then
        (case B (calls tr) text of
           Inr translation \<Rightarrow>
             (let enhanced_translation = enhance_translation U text translation context
              in (Some enhanced_translation,
                  tr\<lparr>translation_cache := (translation_cache tr)((text, context) \<mapsto> enhanced_translation),
                     stats_translated := stats_translated tr + 1,
                     calls := Suc (calls tr)\<rparr>))
         | Inl e \<Rightarrow>
             if attempt = retries - 1 then
               (None, tr\<lparr>error_log := error_log tr @ [(take 30 text, e)],
                         stats_errors := stats_errors tr + 1,
                         calls := Suc (calls tr)\<rparr>)
             else retry_loop U B text context retries (Suc attempt) (tr\<lparr>calls := Suc (calls tr)\<rparr>))
      else (None, tr))"
  by pat_completeness auto
termination
  by (relation "measure (\<lambda>(U, B, text, context, retries, attempt, tr). retries - attempt)") auto

text \<open>\<open>translate_with_context(text, context, retries)\<close>\<close>

definition translate_with_context ::
  "unicode_tables \<Rightarrow> backend \<Rightarrow> ustring \<Rightarrow> ustring \<Rightarrow> nat \<Rightarrow> advanced_translator
     \<Rightarrow> ustring option \<times> advanced_translator" where
  "translate_with_context U B text context retries tr =
     (if text = [] \<or> strip text = [] then (Some text, tr)
      else (case translation_cache tr (text, context) of
              Some v \<Rightarrow> (Some v, tr\<lparr>stats_cached := stats_cached tr + 1\<rparr>)
            | None \<Rightarrow>
                (case reference_translations tr text of
                   Some translation \<Rightarrow>
                     (Some translation,
                      tr\<lparr>stats_translated := stats_translated tr + 1,
                         translation_cache := (translation_cache tr)((text, context) \<mapsto> translation)\<rparr>)
                 | None \<Rightarrow>
                     if \<not> translate_enabled tr \<or> \<not> translator_present tr then (None, tr)
                     else retry_loop U B text context retries 0 tr)))"

text \<open>
  One text slot of \<open>process_element_translations\<close> (the source repeats this block for
  \<open>element.text\<close> and \<open>element.tail\<close>): a slot whose stripped text is longer than two
  code points is counted and handed to \<open>translate_with_context\<close> with the default three
  retries; a truthy result replaces the slot, otherwise the stripped text does.
\<close>

definition process_slot ::
  "unicode_tables \<Rightarrow> backend \<Rightarrow> ustring option \<Rightarrow> ustring \<Rightarrow> advanced_translator
     \<Rightarrow> ustring option \<times> advanced_translator" where
  "process_slot U B slot context tr =
     (case slot of
        None \<Rightarrow> (None, tr)
      | Some s \<Rightarrow>
          if s \<noteq> [] \<and> strip s \<noteq> [] then
            (let text = strip s in
             if length text > 2 then
               (let tr1 = tr\<lparr>stats_total := stats_total tr + 1, visited := visited tr @ [(text, context)]\<rparr>;
                    (translation, tr2) = translate_with_context U B text context 3 tr1
                in (case translation of
                      Some v \<Rightarrow> if v \<noteq> [] then (Some v, tr2) else (Some text, tr2)
                    | None \<Rightarrow> (Some text, tr2)))
             else (Some s, tr))
          else (Some s, tr))"

text \<open>The number of nodes of a tree; it does not depend on the text slots.\<close>

fun nodes :: "element \<Rightarrow> nat" where
  "nodes (Element g a x t cs) = Suc (sum_list (map nodes cs))"

text \<open>
  \<open>process_element_translations(element, context)\<close> rewrites the tree in place: the
  element's text, its children, its tail, and then, as the source is written, its
  children and its tail a second time. The second pass works on the nodes as the first
  pass left them.
\<close>

function process_element_translations ::
  "unicode_tables \<Rightarrow> backend \<Rightarrow> element \<Rightarrow> ustring \<Rightarrow> advanced_translator
     \<Rightarrow> element \<times> advanced_translator"
and process_children ::
  "unicode_tables \<Rightarrow> backend \<Rightarrow> element list \<Rightarrow> ustring \<Rightarrow> advanced_translator
     \<Rightarrow> element list \<times> advanced_translator" where
  "process_element_translations U B (Element g a x t cs) context tr =
     (let (x1, tr1) = process_slot U B x context tr;
          (cs1, tr2) = process_children U B cs context tr1;
          (t1, tr3) = process_slot U B t (context @ ascii ''/tail'') tr2;
          (cs2, tr4) = process_children U B cs1 context tr3;
          (t2, tr5) = process_slot U B t1 (context @ ascii ''/tail'') tr4
      in (Element g a x1 t2 cs2, tr5))"
| "process_children U B [] context tr = ([], tr)"
| "process_children U B (c # cs) context tr =
     (let child_context = (if context \<noteq> [] then context @ ascii ''/'' @ tag c else tag c);
          (c1, tr1) = process_element_translations U B c child_context tr;
          (cs1, tr2) = process_children U B cs context tr1
      in (c1 # cs1, tr2))"
  by pat_completeness auto

lemma skeleton_partial:
  "process_element_translations_process_children_dom (Inl (U, B, e, context, tr)) \<Longrightarrow>
     skeleton (fst (process_element_translations U B e context tr)) = skeleton e"
  "process_element_translations_process_children_dom (Inr (U, B, es, context, tr)) \<Longrightarrow>
     map skeleton (fst (process_children U B es context tr)) = map skeleton es"
  by (induct rule: process_element_translations_process_children.pinduct)
     (auto simp: process_element_translations.psimps process_children.psimps
           split: prod.splits)

lemma nodes_skeleton: "nodes (skeleton e) = nodes e"
  by (induction e) (simp add: comp_def cong: map_cong)

lemma nodes_of_skeletons:
  assumes "map skeleton xs = map skeleton ys"
  shows "sum_list (map nodes xs) = sum_list (map nodes ys)"
proof -
  have "map nodes xs = map (nodes \<circ> skeleton) xs" by (simp add: nodes_skeleton)
  also have "\<dots> = map nodes (map skeleton xs)" by simp
  also have "\<dots> = map nodes (map skeleton ys)" using assms by simp
  also have "\<dots> = map nodes ys" by (simp add: nodes_skeleton)
  finally show ?thesis by simp
qed

lemma children_nodes_partial:
  assumes "process_element_translations_process_children_dom (Inr (U, B, es, c, tr))"
    and "(es', tr') = process_children U B es c tr"
  shows "sum_list (map nodes es') = sum_list (map nodes es)"
proof -
  have "map skeleton es' = map skeleton es"
    using skeleton_partial(2)[OF assms(1)] assms(2)[symmetric] by simp
  then show ?thesis by (rule nodes_of_skeletons)
qed

text \<open>
  The second pass over the children runs on the result of the first; it terminates
  because the first pass leaves the number of nodes as it was.
\<close>

termination process_element_translations
proof (relation "measure (\<lambda>x. case x of
            Inl (U, B, e, c, tr) \<Rightarrow> 2 * nodes e
          | Inr (U, B, es, c, tr) \<Rightarrow> 2 * sum_list (map nodes es) + 1)", goal_cases)
  case 1
  show ?case by simp
next
  case (2 U B g a x t cs c tr)
  show ?case by simp
next
  case (3 U B g a x t cs c tr p x1 tr1 q cs1 tr2 r t1 tr3)
  then show ?case
    using children_nodes_partial[of U B cs c tr1 cs1 tr2] by simp
next
  case (4 U B e es c tr)
  show ?case by (cases e) simp
next
  case (5 U B e es c tr)
  show ?case by (cases e) simp
qed

text \<open>
  \<open>root.find('.//NAME')\<close>: the path (child indices from the root) of the first proper
  descendant with that tag, in document order.
\<close>

fun find_descendant :: "ustring \<Rightarrow> element \<Rightarrow> nat list option"
and find_descendant_list :: "ustring \<Rightarrow> element list \<Rightarrow> nat \<Rightarrow> nat list option" where
  "find_descendant name (Element g a x t cs) = find_descendant_list name cs 0"
| "find_descendant_list name [] i = None"
| "find_descendant_list name (c # cs) i =
     (if tag c = name then Some [i]
      else (case find_descendant name c of
              Some p \<Rightarrow> Some (i # p)
            | None \<Rightarrow> find_descendant_list name cs (Suc i)))"

text \<open>\<open>element.find('NAME')\<close>: the index of the first child with that tag.\<close>

fun find_child :: "ustring \<Rightarrow> element list \<Rightarrow> nat option" where
  "find_child name [] = None"
| "find_child name (c # cs) =
     (if tag c = name then Some 0 else map_option Suc (find_child name cs))"

text \<open>The node at a path, and the tree with the node at a path replaced.\<close>

fun subtree :: "element \<Rightarrow> nat list \<Rightarrow> element option" where
  "subtree e [] = Some e"
| "subtree e (i # p) =
     (if i < length (children e) then subtree (children e ! i) p else None)"

fun replace_at :: "nat list \<Rightarrow> element \<Rightarrow> element \<Rightarrow> element" where
  "replace_at [] new e = new"
| "replace_at (i # p) new e =
     (if i < length (children e)
      then Element (tag e) (attrib e) (own_text e) (tail e)
             ((children e)[i := replace_at p new (children e ! i)])
      else e)"

definition set_text :: "ustring \<Rightarrow> element \<Rightarrow> element" where
  "set_text v e = Element (tag e) (attrib e) (Some v) (tail e) (children e)"

definition fb2_ns :: ustring where
  "fb2_ns = ascii ''{http://www.gribuser.ru/xml/fictionbook/2.0}''"

definition otzvuki :: ustring where
  "otzvuki = [1054, 1090, 1079, 1074, 1091, 1082, 1080]"

definition odjeci :: ustring where
  "odjeci = [1054, 1076, 1112, 1077, 1094, 1080]"

text \<open>
  \<open>update_document_metadata(root)\<close>: inside the first \<open>description\<close> descendant and its
  first \<open>title-info\<close> child, the text of \<open>lang\<close> becomes \<open>sr\<close> and the text of
  \<open>book-title\<close> becomes the translation of a fixed title, or a fixed fallback.
\<close>

definition update_title_info ::
  "unicode_tables \<Rightarrow> backend \<Rightarrow> element \<Rightarrow> advanced_translator
     \<Rightarrow> element \<times> advanced_translator" where
  "update_title_info U B title_info tr =
     (let ti1 = (case find_child (fb2_ns @ ascii ''lang'') (children title_info) of
                   None \<Rightarrow> title_info
                 | Some j \<Rightarrow> replace_at [j] (set_text (ascii ''sr'') (children title_info ! j)) title_info)
      in (case find_child (fb2_ns @ ascii ''book-title'') (children ti1) of
            None \<Rightarrow> (ti1, tr)
          | Some k \<Rightarrow>
              (let (res, tr1) = translate_with_context U B otzvuki (ascii ''book-title'') 3 tr;
                   v = (case res of Some w \<Rightarrow> if w \<noteq> [] then w else odjeci | None \<Rightarrow> odjeci)
               in (replace_at [k] (set_text v (children ti1 ! k)) ti1, tr1))))"

definition update_document_metadata ::
  "unicode_tables \<Rightarrow> backend \<Rightarrow> element \<Rightarrow> advanced_translator
     \<Rightarrow> element \<times> advanced_translator" where
  "update_document_metadata U B root0 tr =
     (case find_descendant (fb2_ns @ ascii ''description'') root0 of
        None \<Rightarrow> (root0, tr)
      | Some p \<Rightarrow>
          (case subtree root0 p of
             None \<Rightarrow> (root0, tr)
           | Some description \<Rightarrow>
               (case find_child (fb2_ns @ ascii ''title-info'') (children description) of
                  None \<Rightarrow> (root0, tr)
                | Some i \<Rightarrow>
                    (let (ti, tr1) = update_title_info U B (children description ! i) tr
                     in (replace_at (p @ [i]) ti root0, tr1)))))"

text \<open>
  \<open>process_fb2_structure(input_path, output_path)\<close>. Parsing and writing are outside the
  repository: \<open>parsed\<close> is the tree \<open>ET.parse\<close> returned (\<open>None\<close> when it raised), and
  \<open>write1\<close>, \<open>write2\<close> say whether the two calls of \<open>write_enhanced_xml\<close> returned.
  Any exception gives \<open>False\<close>; otherwise the function returns \<open>True\<close>. The tree is
  the one the function leaves in memory.
\<close>

definition process_fb2_structure ::
  "unicode_tables \<Rightarrow> backend \<Rightarrow> element option \<Rightarrow> bool \<Rightarrow> bool \<Rightarrow> advanced_translator
     \<Rightarrow> bool \<times> element option \<times> advanced_translator" where
  "process_fb2_structure U B parsed write1 write2 tr =
     (case parsed of
        None \<Rightarrow> (False, None, tr)
      | Some root0 \<Rightarrow>
          (let (root1, tr1) = update_document_metadata U B root0 tr;
               (root2, tr2) = process_element_translations U B root1 [] tr1
           in if \<not> write1 then (False, Some root2, tr2)
              else if \<not> write2 then (False, Some root2, tr2)
              else (True, Some root2, tr2)))"

section \<open>Legacy/fb2\_translator.py\<close>



section \<open>More string operations\<close>

definition startswith :: "ustring \<Rightarrow> ustring \<Rightarrow> bool" where
  "startswith s p \<longleftrightarrow> take (length p) s = p"

text \<open>\<open>sub in s\<close> for strings.\<close>

fun contains :: "ustring \<Rightarrow> ustring \<Rightarrow> bool" where
  "contains sub [] \<longleftrightarrow> sub = []"
| "contains sub (c # cs) \<longleftrightarrow> startswith (c # cs) sub \<or> contains sub cs"

text \<open>\<open>s.split(sub, 1)[1]\<close> when \<open>sub\<close> occurs in \<open>s\<close>: what follows its first occurrence.\<close>

fun after_first :: "ustring \<Rightarrow> ustring \<Rightarrow> ustring" where
  "after_first sub [] = []"
| "after_first sub (c # cs) =
     (if startswith (c # cs) sub then drop (length sub) (c # cs) else after_first sub cs)"

text \<open>\<open>s.split(sep)\<close> for a non-empty separator: the pieces between its occurrences, left to right.\<close>

function split_str :: "ustring \<Rightarrow> ustring \<Rightarrow> ustring list" where
  "split_str sep [] = [[]]"
| "split_str sep (c # cs) =
     (if sep \<noteq> [] \<and> startswith (c # cs) sep
      then [] # split_str sep (drop (length sep) (c # cs))
      else (case split_str sep cs of
              [] \<Rightarrow> [[c]]
            | piece # pieces \<Rightarrow> (c # piece) # pieces))"
  by pat_completeness auto
termination
  by (relation "measure (\<lambda>(sep, s). length s)") (auto simp: neq_Nil_conv)

text \<open>\<open>sep.join(pieces)\<close>\<close>

fun join :: "ustring \<Rightarrow> ustring list \<Rightarrow> ustring" where
  "join sep [] = []"
| "join sep [x] = x"
| "join sep (x # y # ys) = x @ sep @ join sep (y # ys)"

section \<open>internal/scripts/translate\_llm\_only.py\<close>

text \<open>
  What the script finds around it. \<open>llama_binary\<close> is the result of
  \<open>find_llama_binary()\<close>, \<open>has_llama_model\<close> that of the function of that name,
  \<open>model_exists\<close> says whether the fixed model path exists, the two keys are what
  \<open>config.json\<close> holds (\<open>None\<close> when the file or the entry is missing). \<open>run_llama\<close>
  answers \<open>subprocess.run\<close> for the \<open>n\<close>-th backend invocation of the job and the text
  the prompt embeds; \<open>post_openai\<close> answers the HTTP request with the content of the
  first choice, or \<open>None\<close> when anything in the request raised.
\<close>

datatype completed = TimeoutExpired | Completed (returncode: int) (stdout: ustring)

datatype provider = Llamacpp | Openai | Anthropic

record llm_env =
  llama_binary :: "ustring option"
  has_llama_model :: bool
  model_exists :: bool
  openai_api_key :: "ustring option"
  anthropic_api_key :: "ustring option"
  run_llama :: "nat \<Rightarrow> ustring \<Rightarrow> completed"
  post_openai :: "nat \<Rightarrow> ustring \<Rightarrow> ustring option"

text \<open>
  The exceptions the script raises, by their messages: \<open>BinaryNotFound\<close> ("llama.cpp
  binary not found"), \<open>ModelNotFound\<close> ("No working GGUF model found"), \<open>ProcessFailed\<close>
  ("llama.cpp failed"), \<open>InvalidTranslation\<close> ("LLM failed to provide valid Serbian
  translation", the malformed-output failure), \<open>TimedOut\<close> ("Translation timed out"),
  \<open>KeyRequired\<close>, \<open>OpenAIFailed\<close>, \<open>NoProvider\<close> and \<open>UnsupportedProvider\<close>.
\<close>

datatype llm_error =
  BinaryNotFound | ModelNotFound | ProcessFailed | InvalidTranslation | TimedOut
| KeyRequired | OpenAIFailed | NoProvider | UnsupportedProvider

definition truthy :: "ustring option \<Rightarrow> bool" where
  "truthy k \<longleftrightarrow> (case k of None \<Rightarrow> False | Some v \<Rightarrow> v \<noteq> [])"

definition get_translation_provider :: "llm_env \<Rightarrow> provider option" where
  "get_translation_provider env =
     (if llama_binary env \<noteq> None \<and> has_llama_model env then Some Llamacpp
      else if truthy (openai_api_key env) then Some Openai
      else if truthy (anthropic_api_key env) then Some Anthropic
      else None)"

definition serbian_marker :: ustring where
  "serbian_marker = ascii ''Serbian translation:''"

definition original_marker :: ustring where
  "original_marker = ascii ''Original text:''"

text \<open>
  The loop over the output lines of \<open>translate_with_llamacpp\<close>: \<open>started\<close> is
  \<open>translation_started\<close>, \<open>acc\<close> is \<open>result_lines\<close>; returning \<open>acc\<close> before the
  end of the lines is the \<open>break\<close>.
\<close>

fun scan_lines :: "ustring \<Rightarrow> ustring list \<Rightarrow> bool \<Rightarrow> ustring list \<Rightarrow> ustring list" where
  "scan_lines text [] started acc = acc"
| "scan_lines text (line # rest) started acc =
     (if contains serbian_marker line then
        scan_lines text rest True
          (if strip (after_first serbian_marker line) \<noteq> []
           then acc @ [strip (after_first serbian_marker line)] else acc)
      else if started \<and> strip line \<noteq> [] then
        (if contains original_marker line \<or> startswith line (take 20 text) then acc
         else scan_lines text rest started (acc @ [strip line]))
      else scan_lines text rest started acc)"

definition extract_translation :: "ustring \<Rightarrow> ustring \<Rightarrow> ustring" where
  "extract_translation text out =
     strip (join [newline] (scan_lines text (split_str [newline] out) False []))"

text \<open>
  \<open>translate_with_llamacpp(text)\<close>; the number is the count of backend invocations, one
  more after the process has been run.
\<close>

definition translate_with_llamacpp ::
  "unicode_tables \<Rightarrow> llm_env \<Rightarrow> nat \<Rightarrow> ustring \<Rightarrow> (llm_error + ustring) \<times> nat" where
  "translate_with_llamacpp U env n text =
     (if llama_binary env = None then (Inl BinaryNotFound, n)
      else if \<not> model_exists env then (Inl ModelNotFound, n)
      else (case run_llama env n text of
              TimeoutExpired \<Rightarrow> (Inl TimedOut, Suc n)
            | Completed rc out \<Rightarrow>
                if rc \<noteq> 0 then (Inl ProcessFailed, Suc n)
                else (let result_text = extract_translation text out
                      in if result_text = [] \<or>
                            lower U result_text = take (length result_text) (lower U text)
                         then (Inl InvalidTranslation, Suc n)
                         else (Inr result_text, Suc n))))"

definition translate_with_openai ::
  "unicode_tables \<Rightarrow> llm_env \<Rightarrow> nat \<Rightarrow> ustring \<Rightarrow> (llm_error + ustring) \<times> nat" where
  "translate_with_openai U env n text =
     (if \<not> truthy (openai_api_key env) then (Inl KeyRequired, n)
      else (case post_openai env n text of
              None \<Rightarrow> (Inl OpenAIFailed, Suc n)
            | Some content \<Rightarrow>
                (let translation = strip content
                 in if translation = [] \<or> lower U translation = lower U text
                    then (Inl OpenAIFailed, Suc n)
                    else (Inr translation, Suc n))))"

text \<open>\<open>translate_text(text)\<close> of this script.\<close>

definition llm_translate_text ::
  "unicode_tables \<Rightarrow> llm_env \<Rightarrow> nat \<Rightarrow> ustring \<Rightarrow> (llm_error + ustring) \<times> nat" where
  "llm_translate_text U env n text =
     (case get_translation_provider env of
        None \<Rightarrow> (Inl NoProvider, n)
      | Some Llamacpp \<Rightarrow> translate_with_llamacpp U env n text
      | Some Openai \<Rightarrow> translate_with_openai U env n text
      | Some Anthropic \<Rightarrow> (Inl UnsupportedProvider, n))"

definition failed_marker :: ustring where
  "failed_marker = ascii ''[TRANSLATION FAILED] ''"

text \<open>
  The body of the paragraph loop of \<open>translate_markdown_file\<close>; the state is
  \<open>translated_paragraphs\<close>, \<open>failed_paragraphs\<close> and the count of backend invocations.
\<close>

definition translate_paragraph ::
  "unicode_tables \<Rightarrow> llm_env \<Rightarrow> ustring \<Rightarrow> ustring list \<times> nat \<times> nat
     \<Rightarrow> ustring list \<times> nat \<times> nat" where
  "translate_paragraph U env paragraph st =
     (case st of (translated_paragraphs, failed_paragraphs, n) \<Rightarrow>
        if strip paragraph = [] then (translated_paragraphs @ [paragraph], failed_paragraphs, n)
        else if startswith paragraph (ascii ''#'') \<or> startswith paragraph (ascii ''```'') \<or>
                startswith paragraph (ascii ''>'')
        then (translated_paragraphs @ [paragraph], failed_paragraphs, n)
        else (case llm_translate_text U env n (strip paragraph) of
                (Inr res, n') \<Rightarrow>
                  if res \<noteq> [] \<and> res \<noteq> strip paragraph
                  then (translated_paragraphs @ [res], failed_paragraphs, n')
                  else (translated_paragraphs @ [failed_marker @ strip paragraph],
                        failed_paragraphs + 1, n')
              | (Inl e, n') \<Rightarrow>
                  (translated_paragraphs @ [failed_marker @ strip paragraph],
                   failed_paragraphs + 1, n')))"

fun translate_paragraphs ::
  "unicode_tables \<Rightarrow> llm_env \<Rightarrow> ustring list \<Rightarrow> ustring list \<times> nat \<times> nat
     \<Rightarrow> ustring list \<times> nat \<times> nat" where
  "translate_paragraphs U env [] st = st"
| "translate_paragraphs U env (paragraph # rest) st =
     translate_paragraphs U env rest (translate_paragraph U env paragraph st)"

text \<open>
  \<open>translate_markdown_file(input_file, output_file)\<close>. \<open>input\<close> is the content read
  (\<open>None\<close> when reading raised), \<open>write_ok\<close> says whether the output could be written.
  The result is the returned flag and the content written. The source computes the
  success rate in floating point; the quotient of two paragraph counts and the
  constant 0.9 compare in binary64 as they do exactly for every count below \<open>2 ^ 49\<close>,
  so the rate is modelled as a rational number.
\<close>

definition translate_markdown_file ::
  "unicode_tables \<Rightarrow> llm_env \<Rightarrow> ustring option \<Rightarrow> bool \<Rightarrow> bool \<times> ustring option" where
  "translate_markdown_file U env input write_ok =
     (case input of
        None \<Rightarrow> (False, None)
      | Some content \<Rightarrow>
          (let paragraphs = split_str [newline, newline] content;
               (translated_paragraphs, failed_paragraphs, n) =
                  translate_paragraphs U env paragraphs ([], 0, 0);
               translated_content = join [newline, newline] translated_paragraphs
           in if \<not> write_ok then (False, None)
              else (let success_rate =
                          (of_nat (length paragraphs - failed_paragraphs) :: rat) /
                          of_nat (length paragraphs)
                    in if success_rate < 9 / 10 then (False, Some translated_content)
                       else (True, Some translated_content))))"

section \<open>internal/scripts/translate\_with\_llama.py\<close>

definition translation_marker :: ustring where
  "translation_marker = ascii ''Translation:''"

text \<open>
  The loop of \<open>parse_llama_output\<close>: \<open>found\<close> is \<open>found_translation\<close>, \<open>acc\<close> is
  \<open>translation_lines\<close>. Code point 27 is the escape character, 91 the opening bracket.
\<close>

fun parse_lines :: "ustring list \<Rightarrow> bool \<Rightarrow> ustring list \<Rightarrow> ustring list" where
  "parse_lines [] found acc = acc"
| "parse_lines (raw # rest) found acc =
     (let line = strip raw in
      if startswith line [27, 91] \<or> line = ascii ''>'' \<or> line = [] then parse_lines rest found acc
      else if found then parse_lines rest found (acc @ [line])
      else if contains translation_marker line then
        (let remaining = strip (after_first translation_marker line)
         in parse_lines rest True (if remaining \<noteq> [] then acc @ [remaining] else acc))
      else parse_lines rest found acc)"

definition parse_llama_output :: "ustring \<Rightarrow> ustring \<Rightarrow> ustring" where
  "parse_llama_output output original_prompt =
     strip (join [newline] (parse_lines (split_str [newline] output) False []))"

text \<open>
  \<open>translate_with_llama(text)\<close>: \<open>models\<close> says whether \<open>get_available_models()\<close> found
  a model, \<open>binary\<close> whether \<open>build_llama_command\<close> found the executable (it raises
  otherwise, outside the \<open>try\<close>), \<open>run\<close> is the answer of \<open>subprocess.run\<close>. The
  function returns \<open>None\<close> on a missing model, a timeout or a non-zero return code.
  The parser does not read its second argument (the prompt built around the text).
\<close>

definition translate_with_llama ::
  "bool \<Rightarrow> bool \<Rightarrow> completed \<Rightarrow> ustring \<Rightarrow> llm_error + ustring option" where
  "translate_with_llama models binary run text =
     (if \<not> models then Inr None
      else if \<not> binary then Inl BinaryNotFound
      else (case run of
              TimeoutExpired \<Rightarrow> Inr None
            | Completed rc out \<Rightarrow>
                if rc \<noteq> 0 then Inr None
                else Inr (Some (parse_llama_output out text))))"

text \<open>The dictionary \<open>reference_translations\<close> of \<open>__init__\<close>, entry by entry.\<close>

definition reference_table :: "(ustring \<times> ustring) list" where
  "reference_table = [
    ([1056, 1072, 1090, 1080, 1073, 1086, 1088],
     [1056, 1072, 1090, 1080, 1073, 1086, 1088]),
    ([1054, 1090, 1079, 1074, 1091, 1082, 1080],
     [1054, 1076, 1112, 1077, 1094, 1080]),
    ([1092, 1101, 1085, 1090, 1077, 1079, 1080],
     [1092, 1072, 1085, 1090, 1072, 1089, 1090, 1080, 1082, 97]),
    ([1085, 1072, 1091, 1095, 1085, 1072, 1103, 32, 1092, 1072, 1085, 1090, 1072, 1089, 1090, 1080, 1082, 1072],
     [1085, 1072, 1091, 1095, 1085, 1072, 32, 1092, 1072, 1085, 1090, 1072, 1089, 1090, 1080, 1082, 1072]),
    ([1087, 1088, 1080, 1082, 1083, 1102, 1095, 1077, 1085, 1080, 1103],
     [1072, 1074, 1072, 1085, 1090, 1091, 1088, 1077]),
    ([1075, 1077, 1088, 1086, 1081],
     [1112, 1091, 1085, 1072, 1082]),
    ([1084, 1080, 1088],
     [1089, 1074, 1077, 1090]),
    ([1095, 1077, 1083, 1086, 1074, 1077, 1082],
     [1095, 1086, 1074, 1077, 1082]),
    ([1078, 1080, 1079, 1085, 1100],
     [1078, 1080, 1074, 1086, 1090]),
    ([1083, 1102, 1073, 1086, 1074, 1100],
     [1113, 1091, 1073, 1072, 1074]),
    ([1089, 1084, 1077, 1088, 1090, 1100],
     [1089, 1084, 1088, 1090]),
    ([1074, 1088, 1077, 1084, 1103],
     [1074, 1088, 1077, 1084, 1077]),
    ([1076, 1086, 1084],
     [1082, 1091, 1115, 1072]),
    ([1089, 1077, 1088, 1076, 1094, 1077],
     [1089, 1088, 1094, 1077]),
    ([1076, 1091, 1096, 1072],
     [1076, 1091, 1096, 1072]),
    ([1089, 1074, 1077, 1090],
     [1089, 1074, 1077, 1090, 1083, 1086, 1089, 1090, 47, 1089, 1074, 101, 109, 105, 110, 32, 1096, 1080, 1085]),
    ([1090, 1100, 1084, 1072],
     [1084, 1088, 1072, 1082]),
    ([1085, 1086, 1095, 1100],
     [1085, 1086, 1115]),
    ([1076, 1077, 1085, 1100],
     [1076, 1072, 1085]),
    ([1089, 1086, 1083, 1085, 1094, 1077],
     [1089, 1091, 1085, 1094, 1077]),
    ([1083, 1091, 1085, 1072],
     [1084, 1077, 1089, 1077, 1094]),
    ([1079, 1074, 1077, 1079, 1076, 1072],
     [1079, 1074, 1077, 1079, 1076, 1072]),
    ([1085, 1077, 1073, 1086],
     [1085, 1077, 1073, 1086]),
    ([1079, 1077, 1084, 1083, 1103],
     [1079, 1077, 1084, 1113, 1072]),
    ([1074, 1086, 1076, 1072],
     [1074, 1086, 1076, 1072]),
    ([1086, 1075, 1086, 1085, 1100],
     [1074, 1072, 1090, 1088, 1072]),
    ([1074, 1086, 1079, 1076, 1091, 1093],
     [1074, 1072, 1079, 1076, 1091, 1093]),
    ([1076, 1077, 1088, 1077, 1074, 1085, 1103],
     [1089, 1077, 1083, 1086]),
    ([1075, 1086, 1088, 1086, 1076],
     [1075, 1088, 1072, 1076]),
    ([1091, 1083, 1080, 1094, 1072],
     [1091, 1083, 1080, 1094, 1072]),
    ([1076, 1086, 1084],
     [1082, 1091, 1115, 1072]),
    ([1082, 1085, 1080, 1075, 1072],
     [1082, 1114, 1080, 1075, 1072]),
    ([1089, 1083, 1086, 1074, 1086],
     [1088, 1077, 1095]),
    ([1103, 1079, 1099, 1082],
     [1112, 1077, 1079, 1080, 1082]),
    ([1075, 1083, 1072, 1074, 1072],
     [1087, 1086, 1075, 1083, 1072, 1074, 1113, 1077]),
    ([1089, 1090, 1088, 1072, 1085, 1080, 1094, 1072],
     [1089, 1090, 1088, 1072, 1085, 1080, 1094, 1072]),
    ([1080, 1089, 1090, 1086, 1088, 1080, 1103],
     [1087, 1088, 1080, 1095, 1072]),
    ([1082, 1086, 1085, 1077, 1094],
     [1082, 1088, 1072, 1112]),
    ([1085, 1072, 1095, 1072, 1083, 1086],
     [1087, 1086, 1095, 1077, 1090, 1072, 1082]),
    ([1073, 1091, 1076, 1091, 1097, 1077, 1077],
     [1073, 1091, 1076, 1091, 1115, 1085, 1086, 1089, 1090]),
    ([1087, 1088, 1086, 1096, 1083, 1086, 1077],
     [1087, 1088, 1086, 1096, 1083, 1086, 1089, 1090]),
    ([1085, 1072, 1089, 1090, 1086, 1103, 1097, 1077, 1077],
     [1089, 1072, 1076, 1072, 1096, 1114, 1086, 1089, 1090]),
    ([1074, 1086, 1087, 1088, 1086, 1089],
     [1087, 1080, 1090, 1072, 1114, 1077]),
    ([1086, 1090, 1074, 1077, 1090],
     [1086, 1076, 1075, 1086, 1074, 1086, 1088]),
    ([1084, 1099, 1089, 1083, 1100],
     [1084, 1080, 1089, 1072, 1086]),
    ([1095, 1091, 1074, 1089, 1090, 1074, 1086],
     [1086, 1089, 1077, 1115, 1072, 1114, 1077]),
    ([1088, 1072, 1076, 1086, 1089, 1090, 1100],
     [1088, 1072, 1076, 1086, 1089, 1090]),
    ([1075, 1088, 1091, 1089, 1090, 1100],
     [1090, 1091, 1075, 1072]),
    ([1089, 1090, 1088, 1072, 1093],
     [1089, 1090, 1088, 1072, 1093]),
    ([1085, 1072, 1076, 1077, 1078, 1076, 1072],
     [1085, 1072, 1076, 1072]),
    ([1084, 1077, 1095, 1090, 1072],
     [1089, 1072, 1085])]"

text \<open>
  The object \<open>__init__\<close> builds; \<open>enabled\<close> says whether the translation library was
  imported and the translator could be created.
\<close>

definition new_translator :: "bool \<Rightarrow> advanced_translator" where
  "new_translator enabled = \<lparr>
     translate_enabled = enabled,
     translator_present = enabled,
     translation_cache = Map.empty,
     reference_translations = map_of reference_table,
     error_log = [],
     stats_total = 0,
     stats_translated = 0,
     stats_errors = 0,
     stats_cached = 0,
     calls = 0,
     visited = [] \<rparr>"

definition new_fb2_translator :: "ustring \<Rightarrow> fb2_translator" where
  "new_fb2_translator script = \<lparr> target_script = script, fb2_cache = Map.empty, fb2_calls = 0 \<rparr>"

section \<open>Sample backends and documents\<close>

text \<open>A backend that raises the same error at every call, and one that raises at the
  first \<open>k\<close> calls of the run and answers from then on.\<close>

definition always_fails :: "backend_error \<Rightarrow> backend" where
  "always_fails e = (\<lambda>n t. Inl e)"

definition fails_first :: "nat \<Rightarrow> ustring \<Rightarrow> backend" where
  "fails_first k answer = (\<lambda>n t. if n < k then Inl RateLimited else Inr answer)"

text \<open>A backend that returns its input unchanged.\<close>

definition echo_backend :: backend where
  "echo_backend = (\<lambda>n t. Inr t)"

text \<open>A body with one paragraph that has a text and a tail.\<close>

definition doc1 :: element where
  "doc1 = Element (ascii ''body'') [] None None
            [Element (ascii ''p'') [] (Some (ascii ''abc'')) (Some (ascii ''def'')) []]"

text \<open>A body with two paragraphs of the same text, hence the same (text, context) pair.\<close>

definition doc2 :: element where
  "doc2 = Element (ascii ''body'') [] None None
            [Element (ascii ''p'') [] (Some (ascii ''abc'')) None [],
             Element (ascii ''p'') [] (Some (ascii ''abc'')) None []]"

text \<open>A single paragraph whose text has surrounding blanks.\<close>

definition doc3 :: element where
  "doc3 = Element (ascii ''p'') [(ascii ''id'', ascii ''x1'')] (Some (ascii '' abc '')) None []"

section \<open>The transliterator as the specification words it\<close>





definition single_keys :: "(uchar \<times> ustring) list \<Rightarrow> (ustring \<times> ustring) list" where
  "single_keys tbl = map (\<lambda>(c, v). ([c], v)) tbl"

text \<open>
  The loop of \<open>convert_script\<close> with the dictionary as a parameter: a Python dictionary
  from strings to strings, read at each character of the text in turn by
  \<open>.get(char, char)\<close>, the key being the one-character string.
\<close>

fun convert_loop_with :: "(ustring \<times> ustring) list \<Rightarrow> ustring \<Rightarrow> ustring \<Rightarrow> ustring" where
  "convert_loop_with tbl result [] = result"
| "convert_loop_with tbl result (c # cs) =
     convert_loop_with tbl (result @ (case map_of tbl [c] of None \<Rightarrow> [c] | Some v \<Rightarrow> v)) cs"


section \<open>The traversal order as the specification words it\<close>

text \<open>
  The fragments of a tree in the order of the specification, each once: the text of the
  node with the current context, the children in order with the context extended by the
  child's tag, then the tail of the node with the context extended by \<open>/tail\<close>. A slot
  is a fragment when its stripped text has more than two code points.
\<close>

definition slot_fragment :: "ustring option \<Rightarrow> ustring \<Rightarrow> (ustring \<times> ustring) list" where
  "slot_fragment slot context =
     (case slot of
        None \<Rightarrow> []
      | Some s \<Rightarrow> if length (strip s) > 2 then [(strip s, context)] else [])"

fun claimed_order :: "element \<Rightarrow> ustring \<Rightarrow> (ustring \<times> ustring) list"
and claimed_order_children :: "element list \<Rightarrow> ustring \<Rightarrow> (ustring \<times> ustring) list" where
  "claimed_order (Element g a x t cs) context =
     slot_fragment x context @ claimed_order_children cs context @
     slot_fragment t (context @ ascii ''/tail'')"
| "claimed_order_children [] context = []"
| "claimed_order_children (c # cs) context =
     claimed_order c (if context \<noteq> [] then context @ ascii ''/'' @ tag c else tag c) @
     claimed_order_children cs context"

section \<open>Sample environments and inputs of the markdown scripts\<close>

text \<open>A machine with no provider at all, and one where llama.cpp runs and prints \<open>out\<close>.\<close>

definition no_provider_env :: llm_env where
  "no_provider_env = \<lparr>
     llama_binary = None, has_llama_model = False, model_exists = False,
     openai_api_key = None, anthropic_api_key = None,
     run_llama = (\<lambda>n t. TimeoutExpired), post_openai = (\<lambda>n t. None) \<rparr>"

definition llama_env :: "ustring \<Rightarrow> llm_env" where
  "llama_env out = \<lparr>
     llama_binary = Some (ascii ''./llama.cpp''), has_llama_model = True, model_exists = True,
     openai_api_key = None, anthropic_api_key = None,
     run_llama = (\<lambda>n t. Completed 0 out), post_openai = (\<lambda>n t. None) \<rparr>"

text \<open>Ten paragraphs, nine of them headers; and ten paragraphs, eight of them headers.\<close>

definition markdown1 :: ustring where
  "markdown1 = join [newline, newline]
     [ascii ''#a'', ascii ''#b'', ascii ''#c'', ascii ''#d'', ascii ''#e'',
      ascii ''#f'', ascii ''#g'', ascii ''#h'', ascii ''#i'', ascii ''abc'']"

definition markdown2 :: ustring where
  "markdown2 = join [newline, newline]
     [ascii ''#a'', ascii ''#b'', ascii ''#c'', ascii ''#d'', ascii ''#e'',
      ascii ''#f'', ascii ''#g'', ascii ''#h'', ascii ''abc'', ascii ''def'']"

section \<open>Evaluation rules\<close>

lemmas string_eval =
  ascii_def strip_def lstrip_def rstrip_def isspace_def newline_def dquote_def apostrophe_def
  endswith_newline_def replace_char_def startswith_def

lemmas translator_eval =
  process_slot_def translate_with_context_def new_translator_def reference_table_def
  Let_def retry_loop.simps enhance_translation_def small_tables_def
  always_fails_def fails_first_def echo_backend_def

lemmas llm_eval =
  translate_markdown_file_def translate_paragraph_def llm_translate_text_def
  get_translation_provider_def truthy_def translate_with_llamacpp_def translate_with_openai_def
  extract_translation_def failed_marker_def serbian_marker_def original_marker_def
  no_provider_env_def llama_env_def parse_llama_output_def translate_with_llama_def
  translation_marker_def

section \<open>Script transliteration\<close>

lemma convert_loop_concat: "convert_loop acc s = acc @ concat (map table_get s)"
  by (induction s arbitrary: acc) auto

lemma map_of_single_keys: "map_of (single_keys tbl) [c] = map_of tbl c"
  by (induction tbl) (auto simp: single_keys_def)

lemma convert_loop_with_concat:
  "convert_loop_with tbl acc s =
     acc @ concat (map (\<lambda>c. case map_of tbl [c] of None \<Rightarrow> [c] | Some v \<Rightarrow> v) s)"
  by (induction s arbitrary: acc) auto

lemma table_get_fun:
  "table_get = (\<lambda>c. case map_of SERBIAN_CYRILLIC_TO_LATIN c of None \<Rightarrow> [c] | Some v \<Rightarrow> v)"
  by (rule ext) (simp add: table_get_def)

lemma convert_loop_with_source_table:
  "convert_loop_with (single_keys SERBIAN_CYRILLIC_TO_LATIN) acc s = convert_loop acc s"
  by (simp add: convert_loop_with_concat convert_loop_concat map_of_single_keys table_get_fun)




section \<open>Blank fragments\<close>

lemma strip_empty_iff: "strip s = [] \<longleftrightarrow> (\<forall>c \<in> set s. isspace c)"
proof
  assume e: "strip s = []"
  let ?d = "dropWhile isspace s"
  from e have all: "\<forall>c \<in> set ?d. isspace c"
    by (simp add: strip_def rstrip_def lstrip_def dropWhile_eq_Nil_conv)
  have "?d = []"
  proof (rule ccontr)
    assume ne: "?d \<noteq> []"
    then have "\<not> isspace (hd ?d)" by (rule hd_dropWhile)
    moreover have "hd ?d \<in> set ?d" using ne by simp
    ultimately show False using all by blast
  qed
  then show "\<forall>c \<in> set s. isspace c" by (simp add: dropWhile_eq_Nil_conv)
next
  assume "\<forall>c \<in> set s. isspace c"
  then have d: "dropWhile isspace s = []" by (simp add: dropWhile_eq_Nil_conv)
  show "strip s = []" unfolding strip_def rstrip_def lstrip_def d by simp
qed

text \<open>
  Claim C10. For every text that is empty or consists only of whitespace, both
  per-fragment entry points (\<open>translate_with_context\<close> and \<open>translate_text\<close>) return that
  text and leave the translator object as it was: the cache is neither read into the
  result nor updated, no backend is invoked (the invocation count is unchanged) and no
  counter changes.
\<close>

theorem blank_text_returned_unchanged:
  assumes "\<forall>c \<in> set src. isspace c"
  shows "translate_with_context U B src ctx retries tr = (Some src, tr) \<and>
         translate_text avail B src ctx ftr = (src, ftr)"
proof -
  have "strip src = []" using assms by (simp add: strip_empty_iff)
  then show ?thesis by (simp add: translate_with_context_def translate_text_def)
qed

theorem blank_text_returned_unchanged_witness:
  "isspace 32 \<and> isspace 9 \<and> isspace 10 \<and>
   translate_with_context small_tables echo_backend [32, 9, 10] (ascii ''p'') 3 (new_translator True)
     = (Some [32, 9, 10], new_translator True) \<and>
   translate_text True echo_backend [32, 9, 10] (ascii ''/p'') (new_fb2_translator latin)
     = ([32, 9, 10], new_fb2_translator latin)"
proof -
  have h: "\<forall>c \<in> set [32, 9, 10]. isspace c" by (simp add: isspace_def)
  have "isspace 32 \<and> isspace 9 \<and> isspace 10" by (simp add: isspace_def)
  then show ?thesis
    using blank_text_returned_unchanged[OF h, where U = small_tables and B = echo_backend
        and ctx = "ascii ''p''" and retries = 3 and tr = "new_translator True"]
      blank_text_returned_unchanged[OF h, where avail = True and B = echo_backend
        and ctx = "ascii ''/p''" and ftr = "new_fb2_translator latin"]
    by simp
qed

section \<open>The quality normaliser\<close>

lemma replace_char_same: "replace_char c [c] s = s"
  by (induction s) (auto simp: replace_char_def)

lemma rstrip_newline: "rstrip (s @ [newline]) = rstrip s"
  by (simp add: rstrip_def isspace_def newline_def)

lemma rstrip_idem: "rstrip (rstrip s) = rstrip s"
  by (simp add: rstrip_def)

lemma post_process_idem:
  "post_process_translation (post_process_translation t s) s = post_process_translation t s"
  by (simp add: post_process_translation_def Let_def replace_char_same rstrip_newline rstrip_idem)

lemma enhance_simp:
  "enhance_translation U s t c =
     (let e3 = (if endswith_newline s \<and> \<not> endswith_newline t then t @ [newline] else t)
      in if e3 \<noteq> [] \<and> islower U (hd e3) \<and> s \<noteq> [] \<and> isupper U (hd s)
         then upper U (hd e3) @ tl e3 else e3)"
  unfolding enhance_translation_def replace_char_same if_cancel Let_def by (rule refl)

lemma enhance_idem:
  assumes "case_tables_ok U"
  shows "enhance_translation U s (enhance_translation U s t c) c = enhance_translation U s t c"
proof -
  define e3 where "e3 = (if endswith_newline s \<and> \<not> endswith_newline t then t @ [newline] else t)"
  have nl: "endswith_newline s \<Longrightarrow> endswith_newline e3"
    by (auto simp: e3_def endswith_newline_def)
  have first: "enhance_translation U s t c =
     (if e3 \<noteq> [] \<and> islower U (hd e3) \<and> s \<noteq> [] \<and> isupper U (hd s)
      then upper U (hd e3) @ tl e3 else e3)"
    by (simp add: enhance_simp e3_def Let_def)
  show ?thesis
  proof (cases "e3 \<noteq> [] \<and> islower U (hd e3) \<and> s \<noteq> [] \<and> isupper U (hd s)")
    case False
    have keep: "enhance_translation U s t c = e3" using first False by simp
    have eq: "(if endswith_newline s \<and> \<not> endswith_newline e3 then e3 @ [newline] else e3) = e3"
      using nl by simp
    have "enhance_translation U s e3 c =
            (if e3 \<noteq> [] \<and> islower U (hd e3) \<and> s \<noteq> [] \<and> isupper U (hd s)
             then upper U (hd e3) @ tl e3 else e3)"
      unfolding enhance_simp Let_def eq by (rule refl)
    also have "\<dots> = e3" using False by (rule if_not_P)
    finally show ?thesis using keep by simp
  next
    case True
    let ?u = "upper U (hd e3)"
    let ?r = "?u @ tl e3"
    have r: "enhance_translation U s t c = ?r" using first True by simp
    have une: "?u \<noteq> []" using assms True by (simp add: case_tables_ok_def)
    have stable: "islower U (hd ?u) \<Longrightarrow> upper U (hd ?u) @ tl ?u = ?u"
      using assms True by (simp add: case_tables_ok_def)
    have hdnl: "hd e3 \<noteq> newline" using assms True by (auto simp: case_tables_ok_def)
    have tlne: "endswith_newline s \<Longrightarrow> tl e3 \<noteq> []"
    proof
      assume a: "endswith_newline s" and b: "tl e3 = []"
      from True b have "e3 = [hd e3]" by (cases e3) auto
      with nl[OF a] have "hd e3 = newline" by (metis endswith_newline_def last.simps)
      with hdnl show False by simp
    qed
    have rnl: "endswith_newline s \<Longrightarrow> endswith_newline ?r"
    proof -
      assume a: "endswith_newline s"
      have "last ?r = last (tl e3)" using tlne[OF a] by simp
      also have "\<dots> = last e3" using tlne[OF a] True by (cases e3) auto
      finally show ?thesis using nl[OF a] by (simp add: endswith_newline_def une)
    qed
    have eq: "(if endswith_newline s \<and> \<not> endswith_newline ?r then ?r @ [newline] else ?r) = ?r"
      using rnl by simp
    have ht: "hd ?r = hd ?u" "tl ?r = tl ?u @ tl e3" "?r \<noteq> []" using une by simp_all
    have "enhance_translation U s ?r c =
            (if ?r \<noteq> [] \<and> islower U (hd ?r) \<and> s \<noteq> [] \<and> isupper U (hd s)
             then upper U (hd ?r) @ tl ?r else ?r)"
      unfolding enhance_simp Let_def eq by (rule refl)
    also have "\<dots> = (if islower U (hd ?u) then upper U (hd ?u) @ tl ?u @ tl e3 else ?r)"
      unfolding ht using True ht(3) by simp
    also have "\<dots> = ?r" using stable by (cases "islower U (hd ?u)") (simp_all flip: append_assoc)
    finally show ?thesis using r by simp
  qed
qed

lemma small_tables_ok: "case_tables_ok small_tables"
  by (auto simp: case_tables_ok_def small_tables_def newline_def)

text \<open>
  Claim C6. The quality normaliser is idempotent: for every source text \<open>s\<close> and every
  translated text \<open>t\<close>, normalising the normalised text again changes nothing. This holds
  for \<open>enhance_translation\<close> (with case tables that behave as Unicode's do on the first
  letter) and for \<open>post_process_translation\<close>.
\<close>

theorem normalize_idempotent:
  assumes "case_tables_ok U"
  shows "enhance_translation U s (enhance_translation U s t c) c = enhance_translation U s t c \<and>
         post_process_translation (post_process_translation t s) s = post_process_translation t s"
  using enhance_idem[OF assms] post_process_idem by simp

theorem normalize_idempotent_witness:
  "enhance_translation small_tables [1055, 34, 10] [97, 98, 99] [] = [65, 98, 99, 10] \<and>
   enhance_translation small_tables [1055, 34, 10]
     (enhance_translation small_tables [1055, 34, 10] [97, 98, 99] []) [] = [65, 98, 99, 10] \<and>
   post_process_translation [97, 98, 32, 32] [1055, 34, 10] = [97, 98, 10] \<and>
   post_process_translation (post_process_translation [97, 98, 32, 32] [1055, 34, 10]) [1055, 34, 10]
     = [97, 98, 10]"
proof -
  have e: "enhance_translation small_tables [1055, 34, 10] [97, 98, 99] [] = [65, 98, 99, 10]"
    by (simp add: enhance_translation_def small_tables_def string_eval Let_def)
  have q: "post_process_translation [97, 98, 32, 32] [1055, 34, 10] = [97, 98, 10]"
    by (simp add: post_process_translation_def string_eval Let_def)
  note i = normalize_idempotent[OF small_tables_ok, where s = "[1055, 34, 10]" and t = "[97, 98, 99]"
      and c = "[]"]
  note j = normalize_idempotent[OF small_tables_ok, where s = "[1055, 34, 10]" and t = "[97, 98, 32, 32]"]
  show ?thesis using e q i[THEN conjunct1] j[THEN conjunct2] by simp
qed

section \<open>Structure of the translated tree\<close>

lemma skeleton_slot_children:
  "skeleton (fst (process_element_translations U B e c tr)) = skeleton e"
  "map skeleton (fst (process_children U B es c tr)) = map skeleton es"
  by (induction U B e c tr and U B es c tr rule: process_element_translations_process_children.induct)
     (auto split: prod.splits)

lemma skeleton_process_element:
  "skeleton (fst (process_element avail B e c tr)) = skeleton e"
  "map skeleton (fst (process_element_children avail B es c tr)) = map skeleton es"
  by (induction avail B e c tr and avail B es c tr rule: process_element_process_element_children.induct)
     (auto simp: Let_def split: prod.splits dest: sym)

text \<open>
  Claim C1. For every input tree, translating it changes only the two text slots of
  nodes: the tree that \<open>process_element_translations\<close> leaves and the tree that
  \<open>process_element\<close> builds have, node for node, the tags, the attributes and the children
  (in number, order and nesting) of the input, whatever the backend answers; in
  particular when the backend returns its input unchanged.
\<close>

theorem translation_keeps_structure:
  "skeleton (fst (process_element_translations U B e c tr)) = skeleton e \<and>
   skeleton (fst (process_element avail B e pc ftr)) = skeleton e"
  by (simp add: skeleton_slot_children skeleton_process_element)

theorem translation_keeps_structure_witness:
  "skeleton (fst (process_element_translations small_tables echo_backend doc1 [] (new_translator True)))
     = skeleton doc1 \<and>
   skeleton (fst (process_element True echo_backend doc1 [] (new_fb2_translator latin))) = skeleton doc1 \<and>
   skeleton doc1 = Element (ascii ''body'') [] None None [Element (ascii ''p'') [] None None []]"
proof -
  have "skeleton doc1 = Element (ascii ''body'') [] None None [Element (ascii ''p'') [] None None []]"
    by (simp add: doc1_def)
  then show ?thesis
    using translation_keeps_structure[where U = small_tables and B = echo_backend and e = doc1
        and c = "[]" and tr = "new_translator True" and avail = True and pc = "[]"
        and ftr = "new_fb2_translator latin"]
    by simp
qed

section \<open>The translation cache\<close>

lemma retry_loop_other_keys:
  "k \<noteq> (src, ctx) \<Longrightarrow>
   translation_cache (snd (retry_loop U B src ctx retries attempt tr)) k = translation_cache tr k"
proof (induction U B src ctx retries attempt tr rule: retry_loop.induct)
  case (1 U B src ctx retries attempt tr)
  show ?case
  proof (cases "attempt < retries")
    case False
    then show ?thesis by (simp add: retry_loop.simps)
  next
    case True
    show ?thesis
    proof (cases "B (calls tr) src")
      case (Inr res)
      then show ?thesis using True 1(2) by (simp add: retry_loop.simps Let_def)
    next
      case (Inl e)
      show ?thesis
      proof (cases "attempt = retries - 1")
        case True
        then show ?thesis using \<open>attempt < retries\<close> Inl by (simp add: retry_loop.simps)
      next
        case False
        have "translation_cache (snd (retry_loop U B src ctx retries (Suc attempt) (tr\<lparr>calls := Suc (calls tr)\<rparr>))) k
              = translation_cache (tr\<lparr>calls := Suc (calls tr)\<rparr>) k"
          using 1(1)[OF True Inl False 1(2)] .
        then show ?thesis
          using True Inl False by (subst retry_loop.simps) simp
      qed
    qed
  qed
qed

lemma translate_with_context_keeps:
  assumes "translation_cache tr k = Some v"
  shows "translation_cache (snd (translate_with_context U B src ctx retries tr)) k = Some v"
proof (cases "translation_cache tr (src, ctx)")
  case (Some w)
  then show ?thesis using assms by (simp add: translate_with_context_def)
next
  case None
  then have ne: "k \<noteq> (src, ctx)" using assms by auto
  show ?thesis
    using assms None ne retry_loop_other_keys[OF ne, of U B retries 0 tr]
    by (auto simp: translate_with_context_def split: option.splits)
qed

lemma process_slot_keeps:
  assumes "translation_cache tr k = Some v"
  shows "translation_cache (snd (process_slot U B slot ctx tr)) k = Some v"
proof -
  have "\<And>t. translation_cache
          (snd (translate_with_context U B t ctx 3
                  (tr\<lparr>stats_total := stats_total tr + 1, visited := visited tr @ [(t, ctx)]\<rparr>))) k = Some v"
    using assms by (intro translate_with_context_keeps) simp
  then show ?thesis
    using assms
    by (auto simp: process_slot_def Let_def split: option.splits prod.splits)
       (metis snd_conv)+
qed

lemma process_keeps:
  "translation_cache tr k = Some v \<Longrightarrow>
     translation_cache (snd (process_element_translations U B e c tr)) k = Some v"
  "translation_cache tr k = Some v \<Longrightarrow>
     translation_cache (snd (process_children U B es c tr)) k = Some v"
proof (induction U B e c tr and U B es c tr rule: process_element_translations_process_children.induct)
  case (1 U B g a x t cs c tr)
  obtain x1 tr1 where s1: "process_slot U B x c tr = (x1, tr1)" by (cases "process_slot U B x c tr")
  obtain cs1 tr2 where s2: "process_children U B cs c tr1 = (cs1, tr2)" by (cases "process_children U B cs c tr1")
  obtain t1 tr3 where s3: "process_slot U B t (c @ ascii ''/tail'') tr2 = (t1, tr3)"
    by (cases "process_slot U B t (c @ ascii ''/tail'') tr2")
  obtain cs2 tr4 where s4: "process_children U B cs1 c tr3 = (cs2, tr4)" by (cases "process_children U B cs1 c tr3")
  obtain t2 tr5 where s5: "process_slot U B t1 (c @ ascii ''/tail'') tr4 = (t2, tr5)"
    by (cases "process_slot U B t1 (c @ ascii ''/tail'') tr4")
  have k1: "translation_cache tr1 k = Some v"
    using process_slot_keeps[OF 1(3), of U B x c] s1 by simp
  have k2: "translation_cache tr2 k = Some v"
    using 1(1)[OF s1[symmetric] refl k1] s2 by simp
  have k3: "translation_cache tr3 k = Some v"
    using process_slot_keeps[OF k2, of U B t "c @ ascii ''/tail''"] s3 by simp
  have k4: "translation_cache tr4 k = Some v"
    using 1(2)[OF s1[symmetric] refl s2[symmetric] refl s3[symmetric] refl k3] s4 by simp
  have k5: "translation_cache tr5 k = Some v"
    using process_slot_keeps[OF k4, of U B t1 "c @ ascii ''/tail''"] s5 by simp
  show ?case using s1 s2 s3 s4 s5 k5 by simp
next
  case (2 U B c tr)
  then show ?case by simp
next
  case (3 U B e es c tr)
  let ?cc = "if c \<noteq> [] then c @ ascii ''/'' @ tag e else tag e"
  obtain e1 tr1 where s1: "process_element_translations U B e ?cc tr = (e1, tr1)"
    by (cases "process_element_translations U B e ?cc tr")
  obtain es1 tr2 where s2: "process_children U B es c tr1 = (es1, tr2)"
    by (cases "process_children U B es c tr1")
  have k1: "translation_cache tr1 k = Some v" using 3(1)[OF refl 3(3)] s1 by simp
  have k2: "translation_cache tr2 k = Some v" using 3(2)[OF refl s1[symmetric] refl k1] s2 by simp
  show ?case using s1 s2 k2 by (simp add: Let_def)
qed


lemma retry_loop_success:
  "retry_loop U B src ctx retries attempt tr = (Some v, tr1) \<Longrightarrow>
   translation_cache tr1 (src, ctx) = Some v"
proof (induction U B src ctx retries attempt tr rule: retry_loop.induct)
  case (1 U B src ctx retries attempt tr)
  note eq = 1(2)
  show ?case
  proof (cases "attempt < retries")
    case False
    then show ?thesis using eq by (simp add: retry_loop.simps)
  next
    case True
    show ?thesis
    proof (cases "B (calls tr) src")
      case (Inr res)
      then show ?thesis using True eq by (auto simp: retry_loop.simps Let_def)
    next
      case (Inl e)
      show ?thesis
      proof (cases "attempt = retries - 1")
        case True
        then show ?thesis using \<open>attempt < retries\<close> Inl eq by (simp add: retry_loop.simps)
      next
        case False
        have "retry_loop U B src ctx retries (Suc attempt) (tr\<lparr>calls := Suc (calls tr)\<rparr>) = (Some v, tr1)"
          using eq True Inl False by (subst (asm) retry_loop.simps) simp
        then show ?thesis by (rule 1(1)[OF True Inl False])
      qed
    qed
  qed
qed

lemma translated_is_cached:
  assumes "strip src \<noteq> []"
    and "translate_with_context U B src ctx retries tr = (Some v, tr1)"
  shows "translation_cache tr1 (src, ctx) = Some v"
proof -
  have ne: "src \<noteq> []" using assms(1) by (auto simp: strip_def lstrip_def rstrip_def)
  show ?thesis
  proof (cases "translation_cache tr (src, ctx)")
    case (Some w)
    then show ?thesis using assms ne by (auto simp: translate_with_context_def)
  next
    case None
    show ?thesis
    proof (cases "reference_translations tr src")
      case (Some w)
      then show ?thesis using assms ne None by (auto simp: translate_with_context_def)
    next
      case rn: None
      have "retry_loop U B src ctx retries 0 tr = (Some v, tr1)"
        using assms ne None rn by (auto simp: translate_with_context_def split: if_splits)
      then show ?thesis by (rule retry_loop_success)
    qed
  qed
qed

lemma cache_hit:
  assumes "strip src \<noteq> []" and "translation_cache tr (src, ctx) = Some v"
  shows "translate_with_context U B src ctx retries tr =
           (Some v, tr\<lparr>stats_cached := stats_cached tr + 1\<rparr>)"
proof -
  have ne: "src \<noteq> []" using assms(1) by (auto simp: strip_def lstrip_def rstrip_def)
  show ?thesis using assms ne by (simp add: translate_with_context_def)
qed

text \<open>
  Claim C3, amended. The cache is consulted before any backend invocation. Once a
  fragment with a non-blank (text, context) pair has been translated (from the cache, the
  dictionary or a backend call that returned), every later fragment of the run with the
  same pair, however much of the document is processed in between, receives the identical
  value from the cache: no backend is invoked, whatever the backend would answer, and
  only the \<open>cached\<close> counter changes, by one. A fragment whose translation failed is not
  cached.
\<close>

theorem cache_hit_after_translation:
  assumes "strip src \<noteq> []"
    and "translate_with_context U B src ctx retries tr = (Some v, tr1)"
    and "tr2 = snd (process_children U B es c tr1)"
  shows "translate_with_context U B' src ctx retries' tr2 =
           (Some v, tr2\<lparr>stats_cached := stats_cached tr2 + 1\<rparr>)"
proof -
  have "translation_cache tr1 (src, ctx) = Some v"
    using assms(1,2) by (rule translated_is_cached)
  then have "translation_cache tr2 (src, ctx) = Some v"
    unfolding assms(3) by (rule process_keeps(2))
  with assms(1) show ?thesis by (rule cache_hit)
qed

theorem cache_hit_after_translation_witness:
  "strip (ascii ''abc'') \<noteq> [] \<and>
   fst (translate_with_context small_tables (fails_first 0 (ascii ''xyz'')) (ascii ''abc'') (ascii ''p'') 3
          (new_translator True)) = Some (ascii ''xyz'') \<and>
   fst (translate_with_context small_tables (always_fails Malformed) (ascii ''abc'') (ascii ''p'') 3
          (snd (process_children small_tables (fails_first 0 (ascii ''xyz'')) [doc1] []
             (snd (translate_with_context small_tables (fails_first 0 (ascii ''xyz'')) (ascii ''abc'')
                     (ascii ''p'') 3 (new_translator True)))))) = Some (ascii ''xyz'')"
proof -
  let ?B = "fails_first 0 (ascii ''xyz'')"
  let ?first = "translate_with_context small_tables ?B (ascii ''abc'') (ascii ''p'') 3 (new_translator True)"
  have h1: "strip (ascii ''abc'') \<noteq> []" by (simp add: string_eval)
  have v: "fst ?first = Some (ascii ''xyz'')" by (simp add: translator_eval string_eval)
  then have h2: "?first = (Some (ascii ''xyz''), snd ?first)" by (metis prod.collapse)
  show ?thesis
    using h1 v cache_hit_after_translation[OF h1 h2 refl, where es = "[doc1]" and c = "[]"
        and B' = "always_fails Malformed" and retries' = 3]
    by simp
qed

text \<open>
  Claim C3 as stated fails: with a backend that raises at its first nine calls and then
  answers, two paragraphs with the identical (text, context) pair end with different
  values, the first with its source text and the second with the translation.
\<close>

theorem failed_then_translated_counterexample:
  "fst (process_element_translations small_tables (fails_first 9 (ascii ''xyz'')) doc2 []
          (new_translator True)) =
     Element (ascii ''body'') [] None None
       [Element (ascii ''p'') [] (Some (ascii ''abc'')) None [],
        Element (ascii ''p'') [] (Some (ascii ''xyz'')) None []] \<and>
   visited (snd (process_element_translations small_tables (fails_first 9 (ascii ''xyz'')) doc2 []
          (new_translator True))) =
     [(ascii ''abc'', ascii ''p''), (ascii ''abc'', ascii ''p''),
      (ascii ''abc'', ascii ''p''), (ascii ''abc'', ascii ''p'')]"
  by (simp add: doc2_def translator_eval string_eval)

section \<open>The retry loops\<close>








section \<open>Traversal order, failure marking, success threshold and output parsing\<close>

text \<open>
  Claim C2. The traversal is to present the text of a node, then its children in order,
  then its tail, each fragment exactly once. \<open>process_element_translations\<close> repeats the
  pass over the children and the handling of the tail: on a body with one paragraph
  (text \<open>abc\<close>, tail \<open>def\<close>) the order of the claim has two presentations, and the
  code makes six, the tail of the paragraph four times.
\<close>

theorem fragments_presented_repeatedly:
  "visited (snd (process_element_translations small_tables (always_fails Malformed) doc1 []
      (new_translator False))) =
     [(ascii ''abc'', ascii ''p''), (ascii ''def'', ascii ''p/tail''), (ascii ''def'', ascii ''p/tail''),
      (ascii ''abc'', ascii ''p''), (ascii ''def'', ascii ''p/tail''), (ascii ''def'', ascii ''p/tail'')] \<and>
   claimed_order doc1 [] = [(ascii ''abc'', ascii ''p''), (ascii ''def'', ascii ''p/tail'')]"
  by (simp add: doc1_def translator_eval string_eval slot_fragment_def)

text \<open>
  Claim C4 as stated fails: in the tree driver a fragment whose three attempts all timed
  out is written back as its stripped source text with no marker, exactly what a backend
  that returns its input unchanged leaves there.
\<close>

theorem failed_fragment_bare_counterexample:
  "fst (process_element_translations small_tables (always_fails Timeout) doc3 [] (new_translator True))
     = Element (ascii ''p'') [(ascii ''id'', ascii ''x1'')] (Some (ascii ''abc'')) None [] \<and>
   stats_errors (snd (process_element_translations small_tables (always_fails Timeout) doc3 []
     (new_translator True))) = 1 \<and>
   fst (process_element_translations small_tables echo_backend doc3 [] (new_translator True))
     = Element (ascii ''p'') [(ascii ''id'', ascii ''x1'')] (Some (ascii ''abc'')) None []"
  by (simp add: doc3_def translator_eval string_eval)

text \<open>
  Claim C7 as stated fails: \<open>process_fb2_structure\<close> reports success for a document whose
  only fragment failed (none of one translated).
\<close>

theorem no_threshold_counterexample:
  "fst (process_fb2_structure small_tables (always_fails Timeout) (Some doc3) True True
          (new_translator True)) = True \<and>
   stats_total (snd (snd (process_fb2_structure small_tables (always_fails Timeout) (Some doc3) True True
          (new_translator True)))) = 1 \<and>
   stats_translated (snd (snd (process_fb2_structure small_tables (always_fails Timeout) (Some doc3) True True
          (new_translator True)))) = 0 \<and>
   stats_errors (snd (snd (process_fb2_structure small_tables (always_fails Timeout) (Some doc3) True True
          (new_translator True)))) = 1"
  by (simp add: process_fb2_structure_def update_document_metadata_def fb2_ns_def doc3_def
        translator_eval string_eval)

text \<open>
  Claim C8 as stated fails: \<open>translate_with_llama\<close> returns an output that merely echoes
  the source as the translation, and returns the empty string, not a failure, when the
  output has no marker.
\<close>

theorem echo_returned_counterexample:
  "translate_with_llama True True (Completed 0 (ascii ''Translation: abc'')) (ascii ''abc'')
     = Inr (Some (ascii ''abc'')) \<and>
   translate_with_llama True True (Completed 0 (ascii ''no marker here'')) (ascii ''abc'')
     = Inr (Some [])"
  by (simp add: llm_eval string_eval)


text \<open>
  Claim C4, amended. In the markdown job, every paragraph that is attempted and whose
  translation fails (the provider raised, or returned nothing or the stripped paragraph
  itself) is written as the failure marker followed by the stripped paragraph, and the
  failed counter is incremented. In the tree driver a fragment for which
  \<open>translate_with_context\<close> has no result is written back as its stripped source text,
  without a marker.
\<close>

theorem failed_fragment_written:
  "(strip p \<noteq> [] \<and>
    \<not> (startswith p (ascii ''#'') \<or> startswith p (ascii ''```'') \<or> startswith p (ascii ''>'')) \<and>
    (case fst (llm_translate_text U env n (strip p)) of
       Inl e \<Rightarrow> True
     | Inr res \<Rightarrow> res = [] \<or> res = strip p) \<longrightarrow>
    translate_paragraph U env p (tp, f, n) =
      (tp @ [failed_marker @ strip p], f + 1, snd (llm_translate_text U env n (strip p)))) \<and>
   (length (strip s) > 2 \<and>
    (fst (translate_with_context U B (strip s) ctx 3
            (tr\<lparr>stats_total := stats_total tr + 1, visited := visited tr @ [(strip s, ctx)]\<rparr>)) = None \<or>
     fst (translate_with_context U B (strip s) ctx 3
            (tr\<lparr>stats_total := stats_total tr + 1, visited := visited tr @ [(strip s, ctx)]\<rparr>)) = Some [])
    \<longrightarrow> fst (process_slot U B (Some s) ctx tr) = Some (strip s))"
proof (intro conjI impI)
  assume a: "strip p \<noteq> [] \<and>
    \<not> (startswith p (ascii ''#'') \<or> startswith p (ascii ''```'') \<or> startswith p (ascii ''>'')) \<and>
    (case fst (llm_translate_text U env n (strip p)) of
       Inl e \<Rightarrow> True
     | Inr res \<Rightarrow> res = [] \<or> res = strip p)"
  obtain r n' where r: "llm_translate_text U env n (strip p) = (r, n')"
    by (cases "llm_translate_text U env n (strip p)")
  show "translate_paragraph U env p (tp, f, n) =
      (tp @ [failed_marker @ strip p], f + 1, snd (llm_translate_text U env n (strip p)))"
    using a r by (cases r) (auto simp: translate_paragraph_def)
next
  assume b: "length (strip s) > 2 \<and>
    (fst (translate_with_context U B (strip s) ctx 3
            (tr\<lparr>stats_total := stats_total tr + 1, visited := visited tr @ [(strip s, ctx)]\<rparr>)) = None \<or>
     fst (translate_with_context U B (strip s) ctx 3
            (tr\<lparr>stats_total := stats_total tr + 1, visited := visited tr @ [(strip s, ctx)]\<rparr>)) = Some [])"
  then have ne1: "strip s \<noteq> []" by auto
  have ne2: "s \<noteq> []"
  proof
    assume "s = []"
    then have "strip s = []" by (simp add: strip_def lstrip_def rstrip_def)
    with ne1 show False by simp
  qed
  obtain r tr' where r: "translate_with_context U B (strip s) ctx 3
            (tr\<lparr>stats_total := stats_total tr + 1, visited := visited tr @ [(strip s, ctx)]\<rparr>) = (r, tr')"
    by (cases "translate_with_context U B (strip s) ctx 3
            (tr\<lparr>stats_total := stats_total tr + 1, visited := visited tr @ [(strip s, ctx)]\<rparr>)")
  have "r = None \<or> r = Some []" using b r by simp
  then show "fst (process_slot U B (Some s) ctx tr) = Some (strip s)"
    using b ne1 ne2 r by (auto simp: process_slot_def Let_def)
qed

lemma split_str_nonempty: "split_str sep s \<noteq> []"
  by (induction sep s rule: split_str.induct) (auto split: list.splits)

lemma rate_below:
  assumes "0 < n"
  shows "((of_nat a :: rat) / of_nat n < 9 / 10) \<longleftrightarrow> 10 * a < 9 * n"
proof -
  have "((of_nat a :: rat) / of_nat n < 9 / 10) \<longleftrightarrow> (of_nat a :: rat) * 10 < 9 * of_nat n"
    using assms by (simp add: divide_less_eq less_divide_eq)
  also have "\<dots> \<longleftrightarrow> (of_nat (a * 10) :: rat) < of_nat (9 * n)" by simp
  also have "\<dots> \<longleftrightarrow> a * 10 < 9 * n" by (rule of_nat_less_iff)
  finally show ?thesis by (simp add: mult.commute)
qed

text \<open>
  Claim C7, amended. The markdown job reports success exactly when the output could be
  written and the paragraphs that did not fail are at least nine tenths of all paragraphs
  (one failure in ten is a success, two in ten a failure), the failed paragraphs being
  written all the same. The FB2 job has no threshold: it reports success exactly when
  both writes of the output returned.
\<close>

theorem success_threshold:
  "(fst (translate_markdown_file U env (Some content) write_ok) \<longleftrightarrow>
      write_ok \<and>
      9 * length (split_str [newline, newline] content) \<le>
      10 * (length (split_str [newline, newline] content) -
            fst (snd (translate_paragraphs U env (split_str [newline, newline] content) ([], 0, 0))))) \<and>
   (fst (process_fb2_structure U B (Some doc) wa wb tr) \<longleftrightarrow> wa \<and> wb)"
proof
  let ?ps = "split_str [newline, newline] content"
  obtain tp f n where r: "translate_paragraphs U env ?ps ([], 0, 0) = (tp, f, n)"
    by (cases "translate_paragraphs U env ?ps ([], 0, 0)")
  have pos: "0 < length ?ps" using split_str_nonempty[of "[newline, newline]" content] by simp
  show "fst (translate_markdown_file U env (Some content) write_ok) \<longleftrightarrow>
      write_ok \<and> 9 * length ?ps \<le> 10 * (length ?ps - fst (snd (translate_paragraphs U env ?ps ([], 0, 0))))"
    using r rate_below[OF pos, of "length ?ps - f"]
    by (auto simp: translate_markdown_file_def Let_def)
next
  show "fst (process_fb2_structure U B (Some doc) wa wb tr) \<longleftrightarrow> wa \<and> wb"
    by (auto simp: process_fb2_structure_def Let_def split: prod.splits)
qed

lemma contains_iff: "contains sub s \<longleftrightarrow> (\<exists>a b. s = a @ sub @ b)"
proof (induction s)
  case Nil
  show ?case by auto
next
  case (Cons c cs)
  show ?case
  proof
    assume "contains sub (c # cs)"
    then consider "startswith (c # cs) sub" | "contains sub cs" by auto
    then show "\<exists>a b. c # cs = a @ sub @ b"
    proof cases
      case 1
      then have "c # cs = [] @ sub @ drop (length sub) (c # cs)"
        by (metis append_Nil append_take_drop_id startswith_def)
      then show ?thesis by blast
    next
      case 2
      then obtain a b where "cs = a @ sub @ b" using Cons.IH by blast
      then have "c # cs = (c # a) @ sub @ b" by simp
      then show ?thesis by blast
    qed
  next
    assume "\<exists>a b. c # cs = a @ sub @ b"
    then obtain a b where e: "c # cs = a @ sub @ b" by blast
    show "contains sub (c # cs)"
    proof (cases a)
      case Nil
      then have "startswith (c # cs) sub" using e by (simp add: startswith_def)
      then show ?thesis by simp
    next
      case (Cons x a')
      then have "cs = a' @ sub @ b" using e by simp
      then have "contains sub cs" using Cons.IH by blast
      then show ?thesis by simp
    qed
  qed
qed

lemma split_str_pieces:
  "split_str sep s \<noteq> [] \<and> (\<exists>b. s = hd (split_str sep s) @ b) \<and>
   (\<forall>l \<in> set (split_str sep s). \<exists>a b. s = a @ l @ b)"
proof (induction sep s rule: split_str.induct)
  case (1 sep)
  show ?case by simp
next
  case (2 sep c cs)
  show ?case
  proof (cases "sep \<noteq> [] \<and> startswith (c # cs) sep")
    case True
    let ?rest = "drop (length sep) (c # cs)"
    have ih: "\<forall>l \<in> set (split_str sep ?rest). \<exists>a b. ?rest = a @ l @ b"
      using 2(1)[OF True] by blast
    have "\<forall>l \<in> set (split_str sep ?rest). \<exists>a b. c # cs = a @ l @ b"
    proof
      fix l assume "l \<in> set (split_str sep ?rest)"
      then obtain a b where "?rest = a @ l @ b" using ih by blast
      then have "c # cs = (take (length sep) (c # cs) @ a) @ l @ b"
        by (metis append_assoc append_take_drop_id)
      then show "\<exists>a b. c # cs = a @ l @ b" by blast
    qed
    moreover have "\<exists>a b. c # cs = a @ [] @ b" by (rule exI[of _ "[]"]) simp
    moreover have eq: "split_str sep (c # cs) = [] # split_str sep ?rest" using True by simp
    ultimately show ?thesis unfolding eq by simp
  next
    case False
    from 2(2)[OF False] obtain piece pieces where sp: "split_str sep cs = piece # pieces"
      by (cases "split_str sep cs") auto
    from 2(2)[OF False] sp obtain b where pre: "cs = piece @ b" by auto
    have rest: "\<forall>l \<in> set pieces. \<exists>a b. cs = a @ l @ b" using 2(2)[OF False] sp by auto
    have "\<forall>l \<in> set pieces. \<exists>a b. c # cs = a @ l @ b"
    proof
      fix l assume "l \<in> set pieces"
      then obtain a b where "cs = a @ l @ b" using rest by blast
      then have "c # cs = (c # a) @ l @ b" by simp
      then show "\<exists>a b. c # cs = a @ l @ b" by blast
    qed
    moreover have "\<exists>a b. c # cs = a @ (c # piece) @ b"
      using pre by (intro exI[of _ "[]"] exI[of _ b]) simp
    moreover have "\<exists>b. c # cs = (c # piece) @ b" using pre by simp
    moreover have eq: "split_str sep (c # cs) = (c # piece) # pieces" using False sp by auto
    ultimately show ?thesis unfolding eq by simp
  qed
qed

lemma line_contains:
  assumes "l \<in> set (split_str sep s)" and "contains sub l"
  shows "contains sub s"
proof -
  obtain a b where s: "s = a @ l @ b" using split_str_pieces[of sep s] assms(1) by blast
  obtain a' b' where "l = a' @ sub @ b'" using assms(2) contains_iff by blast
  then have "s = (a @ a') @ sub @ (b' @ b)" using s by simp
  then show ?thesis using contains_iff by blast
qed

lemma scan_lines_no_marker:
  "\<forall>l \<in> set ls. \<not> contains serbian_marker l \<Longrightarrow> scan_lines src ls False [] = []"
  by (induction ls) auto

lemma extract_no_marker:
  assumes "\<not> contains serbian_marker out"
  shows "extract_translation src out = []"
proof -
  have "\<forall>l \<in> set (split_str [newline] out). \<not> contains serbian_marker l"
    using assms line_contains by blast
  then have "scan_lines src (split_str [newline] out) False [] = []"
    by (rule scan_lines_no_marker)
  then show ?thesis by (simp add: extract_translation_def strip_def lstrip_def rstrip_def)
qed

text \<open>
  Claim C8, amended. In \<open>translate_with_llamacpp\<close>, when the process returned with code 0
  and its output has no marker line, or the text extracted after the marker is empty, or
  the lower-cased extracted text is a prefix of the lower-cased source, the call fails with
  the invalid-translation exception instead of returning that text; the paragraph is
  marked as failed and the backend has been invoked exactly once for it (no retry).
\<close>

theorem llamacpp_malformed_output:
  assumes "llama_binary env \<noteq> None" and "has_llama_model env" and "model_exists env"
    and "run_llama env n (strip p) = Completed 0 out"
    and "strip p \<noteq> []"
    and "\<not> (startswith p (ascii ''#'') \<or> startswith p (ascii ''```'') \<or> startswith p (ascii ''>''))"
    and "\<not> contains serbian_marker out \<or> extract_translation (strip p) out = [] \<or>
         lower U (extract_translation (strip p) out) =
           take (length (extract_translation (strip p) out)) (lower U (strip p))"
  shows "translate_with_llamacpp U env n (strip p) = (Inl InvalidTranslation, Suc n) \<and>
         translate_paragraph U env p (tp, f, n) = (tp @ [failed_marker @ strip p], f + 1, Suc n)"
proof -
  have bad: "extract_translation (strip p) out = [] \<or>
         lower U (extract_translation (strip p) out) =
           take (length (extract_translation (strip p) out)) (lower U (strip p))"
    using assms(7) extract_no_marker by blast
  have call: "translate_with_llamacpp U env n (strip p) = (Inl InvalidTranslation, Suc n)"
    using assms(1,3,4) bad by (auto simp: translate_with_llamacpp_def Let_def)
  have "llm_translate_text U env n (strip p) = (Inl InvalidTranslation, Suc n)"
    using assms(1,2) call by (simp add: llm_translate_text_def get_translation_provider_def)
  then have "translate_paragraph U env p (tp, f, n) = (tp @ [failed_marker @ strip p], f + 1, Suc n)"
    using assms(5,6) by (simp add: translate_paragraph_def)
  with call show ?thesis by simp
qed


theorem failed_fragment_written_witness:
  "translate_paragraph small_tables no_provider_env (ascii ''abc'') ([], 0, 0) =
     ([ascii ''[TRANSLATION FAILED] abc''], 1, 0) \<and>
   fst (process_slot small_tables (always_fails Timeout) (Some (ascii '' abc '')) (ascii ''p'')
          (new_translator True)) = Some (ascii ''abc'')"
proof -
  let ?tr = "new_translator True"
  have st: "strip (ascii '' abc '') = ascii ''abc''" "strip (ascii ''abc'') = ascii ''abc''"
    by (simp_all add: string_eval)
  have h1: "strip (ascii ''abc'') \<noteq> [] \<and>
    \<not> (startswith (ascii ''abc'') (ascii ''#'') \<or> startswith (ascii ''abc'') (ascii ''```'') \<or>
       startswith (ascii ''abc'') (ascii ''>'')) \<and>
    (case fst (llm_translate_text small_tables no_provider_env 0 (strip (ascii ''abc''))) of
       Inl e \<Rightarrow> True
     | Inr res \<Rightarrow> res = [] \<or> res = strip (ascii ''abc''))"
    by (simp add: llm_eval string_eval)
  have h2: "length (strip (ascii '' abc '')) > 2 \<and>
    (fst (translate_with_context small_tables (always_fails Timeout) (strip (ascii '' abc '')) (ascii ''p'') 3
            (?tr\<lparr>stats_total := stats_total ?tr + 1,
                  visited := visited ?tr @ [(strip (ascii '' abc ''), ascii ''p'')]\<rparr>)) = None \<or>
     fst (translate_with_context small_tables (always_fails Timeout) (strip (ascii '' abc '')) (ascii ''p'') 3
            (?tr\<lparr>stats_total := stats_total ?tr + 1,
                  visited := visited ?tr @ [(strip (ascii '' abc ''), ascii ''p'')]\<rparr>)) = Some [])"
    by (simp add: translator_eval string_eval)
  note t = failed_fragment_written[where p = "ascii ''abc''" and U = small_tables and env = no_provider_env
      and n = 0 and tp = "[]" and f = 0 and s = "ascii '' abc ''" and B = "always_fails Timeout"
      and ctx = "ascii ''p''" and tr = ?tr]
  have a: "translate_paragraph small_tables no_provider_env (ascii ''abc'') ([], 0, 0) =
      ([] @ [failed_marker @ strip (ascii ''abc'')], 0 + 1,
       snd (llm_translate_text small_tables no_provider_env 0 (strip (ascii ''abc''))))"
    by (rule t[THEN conjunct1, rule_format, OF h1])
  have b: "fst (process_slot small_tables (always_fails Timeout) (Some (ascii '' abc '')) (ascii ''p'') ?tr)
      = Some (strip (ascii '' abc ''))"
    by (rule t[THEN conjunct2, rule_format, OF h2])
  have m: "failed_marker @ ascii ''abc'' = ascii ''[TRANSLATION FAILED] abc''"
    by (simp add: failed_marker_def ascii_def)
  have n: "snd (llm_translate_text small_tables no_provider_env 0 (ascii ''abc'')) = 0"
    by (simp add: llm_eval)
  show ?thesis using a b m n unfolding st by simp
qed

theorem success_threshold_witness:
  "length (split_str [newline, newline] markdown1) = 10 \<and>
   fst (snd (translate_paragraphs small_tables no_provider_env
               (split_str [newline, newline] markdown1) ([], 0, 0))) = 1 \<and>
   fst (translate_markdown_file small_tables no_provider_env (Some markdown1) True) = True \<and>
   length (split_str [newline, newline] markdown2) = 10 \<and>
   fst (snd (translate_paragraphs small_tables no_provider_env
               (split_str [newline, newline] markdown2) ([], 0, 0))) = 2 \<and>
   fst (translate_markdown_file small_tables no_provider_env (Some markdown2) True) = False \<and>
   fst (process_fb2_structure small_tables echo_backend (Some doc1) True True (new_translator True)) = True"
proof -
  have l1: "length (split_str [newline, newline] markdown1) = 10"
    by (simp add: markdown1_def string_eval)
  have f1: "fst (snd (translate_paragraphs small_tables no_provider_env
               (split_str [newline, newline] markdown1) ([], 0, 0))) = 1"
    by (simp add: markdown1_def llm_eval string_eval)
  have l2: "length (split_str [newline, newline] markdown2) = 10"
    by (simp add: markdown2_def string_eval)
  have f2: "fst (snd (translate_paragraphs small_tables no_provider_env
               (split_str [newline, newline] markdown2) ([], 0, 0))) = 2"
    by (simp add: markdown2_def llm_eval string_eval)
  note t1 = success_threshold[where U = small_tables and env = no_provider_env and content = markdown1
      and write_ok = True and B = echo_backend and doc = doc1 and wa = True and wb = True
      and tr = "new_translator True"]
  note t2 = success_threshold[where U = small_tables and env = no_provider_env and content = markdown2
      and write_ok = True and B = echo_backend and doc = doc1 and wa = True and wb = True
      and tr = "new_translator True"]
  have a: "fst (translate_markdown_file small_tables no_provider_env (Some markdown1) True) = True"
    using t1[THEN conjunct1] unfolding l1 f1 by simp
  have b: "fst (translate_markdown_file small_tables no_provider_env (Some markdown2) True) = False"
    using t2[THEN conjunct1] unfolding l2 f2 by simp
  have c: "fst (process_fb2_structure small_tables echo_backend (Some doc1) True True (new_translator True)) = True"
    using t1[THEN conjunct2] by simp
  show ?thesis using l1 f1 l2 f2 a b c by simp
qed

theorem llamacpp_malformed_output_witness:
  "translate_with_llamacpp small_tables (llama_env (ascii ''no marker here'')) 0 (ascii ''abc'')
     = (Inl InvalidTranslation, 1) \<and>
   translate_paragraph small_tables (llama_env (ascii ''no marker here'')) (ascii ''abc'') ([], 0, 0)
     = ([ascii ''[TRANSLATION FAILED] abc''], 1, 1) \<and>
   extract_translation (ascii ''abc'') (ascii ''Serbian translation: ABC'') = ascii ''ABC'' \<and>
   translate_with_llamacpp small_tables (llama_env (ascii ''Serbian translation: ABC'')) 0 (ascii ''abc'')
     = (Inl InvalidTranslation, 1)"
proof -
  let ?e1 = "llama_env (ascii ''no marker here'')"
  let ?e2 = "llama_env (ascii ''Serbian translation: ABC'')"
  have st: "strip (ascii ''abc'') = ascii ''abc''" by (simp add: string_eval)
  have p5: "strip (ascii ''abc'') \<noteq> []" by (simp add: string_eval)
  have p6: "\<not> (startswith (ascii ''abc'') (ascii ''#'') \<or> startswith (ascii ''abc'') (ascii ''```'') \<or>
       startswith (ascii ''abc'') (ascii ''>''))"
    by (simp add: string_eval)
  have x: "extract_translation (ascii ''abc'') (ascii ''Serbian translation: ABC'') = ascii ''ABC''"
    by (simp add: llm_eval string_eval)
  have b1: "\<not> contains serbian_marker (ascii ''no marker here'') \<or>
      extract_translation (strip (ascii ''abc'')) (ascii ''no marker here'') = [] \<or>
      lower small_tables (extract_translation (strip (ascii ''abc'')) (ascii ''no marker here'')) =
        take (length (extract_translation (strip (ascii ''abc'')) (ascii ''no marker here'')))
          (lower small_tables (strip (ascii ''abc'')))"
    by (simp add: serbian_marker_def string_eval)
  have b2: "\<not> contains serbian_marker (ascii ''Serbian translation: ABC'') \<or>
      extract_translation (strip (ascii ''abc'')) (ascii ''Serbian translation: ABC'') = [] \<or>
      lower small_tables (extract_translation (strip (ascii ''abc'')) (ascii ''Serbian translation: ABC'')) =
        take (length (extract_translation (strip (ascii ''abc'')) (ascii ''Serbian translation: ABC'')))
          (lower small_tables (strip (ascii ''abc'')))"
    unfolding st x by (simp add: small_tables_def ascii_def)
  have t1: "translate_with_llamacpp small_tables ?e1 0 (strip (ascii ''abc'')) = (Inl InvalidTranslation, Suc 0) \<and>
      translate_paragraph small_tables ?e1 (ascii ''abc'') ([], 0, 0) =
        ([] @ [failed_marker @ strip (ascii ''abc'')], 0 + 1, Suc 0)"
    by (rule llamacpp_malformed_output[OF _ _ _ _ p5 p6 b1]) (simp_all add: llama_env_def)
  have t2: "translate_with_llamacpp small_tables ?e2 0 (strip (ascii ''abc'')) = (Inl InvalidTranslation, Suc 0) \<and>
      translate_paragraph small_tables ?e2 (ascii ''abc'') ([], 0, 0) =
        ([] @ [failed_marker @ strip (ascii ''abc'')], 0 + 1, Suc 0)"
    by (rule llamacpp_malformed_output[OF _ _ _ _ p5 p6 b2]) (simp_all add: llama_env_def)
  have m: "failed_marker @ ascii ''abc'' = ascii ''[TRANSLATION FAILED] abc''"
    by (simp add: failed_marker_def ascii_def)
  show ?thesis using t1 t2 x m unfolding st by simp
qed

end
